theory Spec2Isabelle
  imports Complex_Main
begin

section \<open>The pub/sub client: \<^verbatim>\<open>src/services/websocket.ts\<close>\<close>

text \<open>
  \<^verbatim>\<open>ROSWebSocketService\<close> owns one \<^verbatim>\<open>WebSocket\<close> at a time, a topic registry
  (\<^verbatim>\<open>Map<string, handler>\<close>), two listener lists and a reconnect counter. The class
  runs on the browser's single-threaded event loop, so it is modelled as a record of
  its fields together with the part of the environment it talks to: the socket objects
  it has constructed (each with its \<^verbatim>\<open>readyState\<close>), the number of pending
  \<^verbatim>\<open>setTimeout\<close> callbacks, the frames handed to \<^verbatim>\<open>ws.send\<close>, the calls made to
  client callbacks and the console.

  Client callbacks and topic handlers are opaque function references (numbers); calling
  one is recorded in \<open>invoked\<close>. What a callback does in turn is the caller's code and
  is not part of the class.
\<close>

subsection \<open>JavaScript values\<close>

text \<open>
  The value \<^verbatim>\<open>JSON.parse\<close> returns: \<^verbatim>\<open>null\<close>, a boolean, a number, a string, an array
  or an object (a list of its own properties, names distinct, as the parser leaves
  them). \<open>JUndefined\<close> is what reading a missing property gives.
\<close>

datatype jsval =
    JUndefined
  | JNull
  | JBool bool
  | JNum real
  | JStr string
  | JArr "jsval list"
  | JObj "(string \<times> jsval) list"

datatype exn = Error | TypeError | SyntaxError | RangeError

text \<open>\<^verbatim>\<open>if (v)\<close>: \<^verbatim>\<open>undefined\<close>, \<^verbatim>\<open>null\<close>, \<^verbatim>\<open>false\<close>, \<^verbatim>\<open>0\<close> and \<^verbatim>\<open>""\<close> are falsy.\<close>

fun truthy :: "jsval \<Rightarrow> bool" where
  "truthy JUndefined = False"
| "truthy JNull = False"
| "truthy (JBool b) = b"
| "truthy (JNum x) = (x \<noteq> 0)"
| "truthy (JStr s) = (s \<noteq> [])"
| "truthy (JArr xs) = True"
| "truthy (JObj ps) = True"

text \<open>
  \<^verbatim>\<open>data.topic\<close> and \<^verbatim>\<open>data.msg\<close>: reading a property of \<^verbatim>\<open>null\<close> throws a
  \<^verbatim>\<open>TypeError\<close>; an object gives its own property or \<^verbatim>\<open>undefined\<close>; a primitive or an
  array has neither name.
\<close>

fun get_member :: "jsval \<Rightarrow> string \<Rightarrow> exn + jsval" where
  "get_member JNull k = Inl TypeError"
| "get_member JUndefined k = Inl TypeError"
| "get_member (JObj ps) k = Inr (case map_of ps k of None \<Rightarrow> JUndefined | Some v \<Rightarrow> v)"
| "get_member (JBool b) k = Inr JUndefined"
| "get_member (JNum x) k = Inr JUndefined"
| "get_member (JStr s) k = Inr JUndefined"
| "get_member (JArr xs) k = Inr JUndefined"

subsection \<open>The state of the service\<close>

datatype readyState = CONNECTING | OPEN | CLOSING | CLOSED

type_synonym handler = nat
type_synonym callback = nat

text \<open>The control frame \<^verbatim>\<open>{op, topic, msg?, type}\<close> given to \<^verbatim>\<open>JSON.stringify\<close>.\<close>

datatype frame = Frame (frame_op: string) (frame_topic: string) (frame_msg: "jsval option") (frame_type: string)

datatype call = ConnectionCb callback | DisconnectionCb callback | TopicHandler handler jsval

datatype logmsg = LogConnected | LogParseError | LogLost | LogRetry nat | LogNotConnected | LogSocketError

record service =
  ws :: "nat option"
  url_accepted :: bool
  reconnectAttempts :: nat
  maxReconnectAttempts :: nat
  reconnectInterval :: nat
  subscribers :: "string \<rightharpoonup> handler"
  connectionCallbacks :: "callback list"
  disconnectionCallbacks :: "callback list"
  sockets :: "readyState list"
  timers :: nat
  sent :: "(nat \<times> frame) list"
  invoked :: "call list"
  console :: "logmsg list"

text \<open>
  \<open>ws\<close> is \<^verbatim>\<open>this.ws\<close>: \<open>None\<close> for \<^verbatim>\<open>null\<close>, otherwise the index in \<open>sockets\<close> of the
  socket object it refers to. \<open>url_accepted\<close> says whether the \<^verbatim>\<open>WebSocket\<close> constructor
  accepts \<^verbatim>\<open>this.url\<close> (it throws a \<^verbatim>\<open>SyntaxError\<close> on a malformed one). \<open>timers\<close> counts
  the pending \<^verbatim>\<open>setTimeout\<close> callbacks; all of them are the same closure and share one
  delay, so their number is all there is to know.
\<close>

definition new_service :: "bool \<Rightarrow> service" where
  "new_service ok =
     \<lparr> ws = None, url_accepted = ok, reconnectAttempts = 0, maxReconnectAttempts = 5,
       reconnectInterval = 3000, subscribers = Map.empty, connectionCallbacks = [],
       disconnectionCallbacks = [], sockets = [], timers = 0, sent = [], invoked = [],
       console = [] \<rparr>"

definition readyState_of :: "service \<Rightarrow> nat \<Rightarrow> readyState option" where
  "readyState_of s i = (if i < length (sockets s) then Some (sockets s ! i) else None)"

text \<open>\<^verbatim>\<open>this.ws?.readyState === WebSocket.OPEN\<close>\<close>

definition isConnected :: "service \<Rightarrow> bool" where
  "isConnected s = (case ws s of None \<Rightarrow> False | Some i \<Rightarrow> readyState_of s i = Some OPEN)"

subsection \<open>The public operations\<close>

text \<open>
  \<^verbatim>\<open>connect()\<close>: the body of the promise executor runs at once. Either the constructor
  throws and the promise is rejected with nothing changed, or a new socket in state
  \<open>CONNECTING\<close> becomes \<^verbatim>\<open>this.ws\<close>, with the four handlers below attached to it.
\<close>

definition connect :: "service \<Rightarrow> exn + service" where
  "connect s =
     (if url_accepted s
      then Inr (s\<lparr> sockets := sockets s @ [CONNECTING], ws := Some (length (sockets s)) \<rparr>)
      else Inl SyntaxError)"

definition handleReconnect :: "service \<Rightarrow> service" where
  "handleReconnect s =
     (if reconnectAttempts s < maxReconnectAttempts s
      then s\<lparr> reconnectAttempts := reconnectAttempts s + 1,
              console := console s @ [LogRetry (reconnectAttempts s + 1)],
              timers := timers s + 1 \<rparr>
      else s)"

definition subscribe :: "string \<Rightarrow> string \<Rightarrow> handler \<Rightarrow> service \<Rightarrow> service" where
  "subscribe tp messageType cb s =
     (case ws s of
        None \<Rightarrow> s\<lparr> console := console s @ [LogNotConnected] \<rparr>
      | Some i \<Rightarrow>
          if readyState_of s i \<noteq> Some OPEN
          then s\<lparr> console := console s @ [LogNotConnected] \<rparr>
          else s\<lparr> subscribers := (subscribers s)(tp \<mapsto> cb),
                  sent := sent s @ [(i, Frame ''subscribe'' tp None messageType)] \<rparr>)"

definition publish :: "string \<Rightarrow> string \<Rightarrow> jsval \<Rightarrow> service \<Rightarrow> service" where
  "publish tp messageType message s =
     (case ws s of
        None \<Rightarrow> s\<lparr> console := console s @ [LogNotConnected] \<rparr>
      | Some i \<Rightarrow>
          if readyState_of s i \<noteq> Some OPEN
          then s\<lparr> console := console s @ [LogNotConnected] \<rparr>
          else s\<lparr> sent := sent s @ [(i, Frame ''publish'' tp (Some message) messageType)] \<rparr>)"

definition advertise :: "string \<Rightarrow> string \<Rightarrow> service \<Rightarrow> service" where
  "advertise tp messageType s =
     (case ws s of
        None \<Rightarrow> s\<lparr> console := console s @ [LogNotConnected] \<rparr>
      | Some i \<Rightarrow>
          if readyState_of s i \<noteq> Some OPEN
          then s\<lparr> console := console s @ [LogNotConnected] \<rparr>
          else s\<lparr> sent := sent s @ [(i, Frame ''advertise'' tp None messageType)] \<rparr>)"

definition onConnection :: "callback \<Rightarrow> service \<Rightarrow> service" where
  "onConnection cb s = s\<lparr> connectionCallbacks := connectionCallbacks s @ [cb] \<rparr>"

definition onDisconnection :: "callback \<Rightarrow> service \<Rightarrow> service" where
  "onDisconnection cb s = s\<lparr> disconnectionCallbacks := disconnectionCallbacks s @ [cb] \<rparr>"

text \<open>
  \<^verbatim>\<open>WebSocket.close()\<close>: a socket that is connecting or open starts closing; on one that
  is closing or closed the call does nothing. The \<^verbatim>\<open>close\<close> event comes later.
\<close>

definition socket_close :: "nat \<Rightarrow> service \<Rightarrow> service" where
  "socket_close i s =
     (if readyState_of s i = Some CONNECTING \<or> readyState_of s i = Some OPEN
      then s\<lparr> sockets := (sockets s)[i := CLOSING] \<rparr>
      else s)"

definition disconnect :: "service \<Rightarrow> service" where
  "disconnect s =
     (case ws s of
        None \<Rightarrow> s
      | Some i \<Rightarrow> (socket_close i s)\<lparr> ws := None \<rparr>)"

subsection \<open>The socket's event handlers\<close>

text \<open>\<^verbatim>\<open>ws.onopen\<close>\<close>

definition onopen :: "service \<Rightarrow> service" where
  "onopen s =
     s\<lparr> console := console s @ [LogConnected],
        reconnectAttempts := 0,
        invoked := invoked s @ map ConnectionCb (connectionCallbacks s) \<rparr>"

text \<open>
  \<^verbatim>\<open>ws.onmessage\<close>. \<open>inbound\<close> is the outcome of \<^verbatim>\<open>JSON.parse(event.data)\<close>: a
  \<^verbatim>\<open>SyntaxError\<close> or the parsed value. \<open>dispatch\<close> is the body of the \<^verbatim>\<open>try\<close>, with
  every throw as \<open>Inl\<close>; \<open>onmessage\<close> adds the \<^verbatim>\<open>catch\<close>. The registry's keys are
  strings, so \<^verbatim>\<open>subscribers.has(v)\<close> holds only for a string \<open>v\<close> that is a key.
  (A handler that throws is caught by the same \<^verbatim>\<open>catch\<close>; the call is recorded
  either way.)
\<close>

datatype inbound = Unparseable | Parsed jsval

definition registered :: "service \<Rightarrow> jsval \<Rightarrow> handler option" where
  "registered s v = (case v of JStr k \<Rightarrow> subscribers s k | _ \<Rightarrow> None)"

definition dispatch :: "service \<Rightarrow> inbound \<Rightarrow> exn + service" where
  "dispatch s ev =
     (case ev of
        Unparseable \<Rightarrow> Inl SyntaxError
      | Parsed d \<Rightarrow>
          (case get_member d ''topic'' of
             Inl e \<Rightarrow> Inl e
           | Inr t \<Rightarrow>
               if truthy t \<and> registered s t \<noteq> None
               then (case get_member d ''msg'' of
                       Inl e \<Rightarrow> Inl e
                     | Inr m \<Rightarrow> Inr (s\<lparr> invoked := invoked s @ [TopicHandler (the (registered s t)) m] \<rparr>))
               else Inr s))"

definition onmessage :: "service \<Rightarrow> inbound \<Rightarrow> service" where
  "onmessage s ev =
     (case dispatch s ev of
        Inl e \<Rightarrow> s\<lparr> console := console s @ [LogParseError] \<rparr>
      | Inr s' \<Rightarrow> s')"

text \<open>\<^verbatim>\<open>ws.onclose\<close>\<close>

definition onclose :: "service \<Rightarrow> service" where
  "onclose s =
     handleReconnect
       (s\<lparr> console := console s @ [LogLost],
           invoked := invoked s @ map DisconnectionCb (disconnectionCallbacks s) \<rparr>)"

text \<open>\<^verbatim>\<open>ws.onerror\<close>: logs and rejects the promise of \<^verbatim>\<open>connect()\<close>.\<close>

definition onerror :: "service \<Rightarrow> service" where
  "onerror s = s\<lparr> console := console s @ [LogSocketError] \<rparr>"

text \<open>
  \<^verbatim>\<open>this.connect().catch(() => {})\<close>, the timer callback of \<^verbatim>\<open>handleReconnect\<close>; the
  hook \<^verbatim>\<open>useWebSocket\<close> calls \<^verbatim>\<open>connect()\<close> the same way, with the rejection handled.
\<close>

definition connect_caught :: "service \<Rightarrow> service" where
  "connect_caught s = (case connect s of Inl e \<Rightarrow> s | Inr s' \<Rightarrow> s')"

subsection \<open>The event loop\<close>

text \<open>
  What the browser may deliver, and when: \<^verbatim>\<open>open\<close> to a connecting socket, a message
  to an open one, \<^verbatim>\<open>error\<close> and \<^verbatim>\<open>close\<close> to one that is not yet closed, and a timeout
  while one is pending. Delivering an event first changes the socket's \<^verbatim>\<open>readyState\<close>
  (or takes the timer off the queue), then runs the handler. Every socket the service
  constructs carries the same four handlers, whether or not it is still \<^verbatim>\<open>this.ws\<close>.
\<close>

datatype event =
    SocketOpen nat
  | SocketMessage nat inbound
  | SocketError nat
  | SocketClose nat
  | Timeout

fun enabled :: "service \<Rightarrow> event \<Rightarrow> bool" where
  "enabled s (SocketOpen i) = (readyState_of s i = Some CONNECTING)"
| "enabled s (SocketMessage i ev) = (readyState_of s i = Some OPEN)"
| "enabled s (SocketError i) = (readyState_of s i \<noteq> None \<and> readyState_of s i \<noteq> Some CLOSED)"
| "enabled s (SocketClose i) = (readyState_of s i \<noteq> None \<and> readyState_of s i \<noteq> Some CLOSED)"
| "enabled s Timeout = (0 < timers s)"

fun fire :: "event \<Rightarrow> service \<Rightarrow> service" where
  "fire (SocketOpen i) s = onopen (s\<lparr> sockets := (sockets s)[i := OPEN] \<rparr>)"
| "fire (SocketMessage i ev) s = onmessage s ev"
| "fire (SocketError i) s = onerror s"
| "fire (SocketClose i) s = onclose (s\<lparr> sockets := (sockets s)[i := CLOSED] \<rparr>)"
| "fire Timeout s = connect_caught (s\<lparr> timers := timers s - 1 \<rparr>)"

text \<open>A run of events, each delivered only if the browser could deliver it.\<close>

fun run :: "event list \<Rightarrow> service \<Rightarrow> service option" where
  "run [] s = Some s"
| "run (e # es) s = (if enabled s e then run es (fire e s) else None)"

text \<open>
  One failed reconnect attempt: the pending timer fires and \<^verbatim>\<open>connect()\<close> constructs a
  socket, which reports \<^verbatim>\<open>error\<close> and then \<^verbatim>\<open>close\<close> without ever opening.
\<close>

definition failed_attempt :: "service \<Rightarrow> service option" where
  "failed_attempt s =
     run [Timeout, SocketError (length (sockets s)), SocketClose (length (sockets s))] s"

fun failed_attempts :: "nat \<Rightarrow> service \<Rightarrow> service option" where
  "failed_attempts 0 s = Some s"
| "failed_attempts (Suc k) s =
     (case failed_attempt s of None \<Rightarrow> None | Some s' \<Rightarrow> failed_attempts k s')"

text \<open>The value a handler receives: \<^verbatim>\<open>data.msg\<close> of an inbound object.\<close>

definition msg_of :: "jsval \<Rightarrow> jsval" where
  "msg_of d = (case get_member d ''msg'' of Inl e \<Rightarrow> JUndefined | Inr m \<Rightarrow> m)"

text \<open>An inbound envelope \<^verbatim>\<open>{topic, msg}\<close>.\<close>

definition envelope :: "string \<Rightarrow> jsval \<Rightarrow> jsval" where
  "envelope tp m = JObj [(''topic'', JStr tp), (''msg'', m)]"

text \<open>
  Two states for examples: a service with one listener whose first socket has opened,
  and the same with handlers registered for the topic \<^verbatim>\<open>a\<close> and for the empty topic.
\<close>

definition connected_service :: service where
  "connected_service = fire (SocketOpen 0) (connect_caught (onConnection 1 (new_service True)))"

definition two_topics :: service where
  "two_topics = subscribe [] ''t'' 9 (subscribe ''a'' ''t'' 8 connected_service)"

section \<open>The raster decoder: \<^verbatim>\<open>parsePgmFile\<close>\<close>

text \<open>
  The decoder reads the file into a \<^verbatim>\<open>Uint8Array\<close> and takes the header apart as
  text, one character per byte (\<^verbatim>\<open>String.fromCharCode(view[i])\<close>). A HOL \<open>char\<close> is a
  byte, so the byte array is a \<open>string\<close>, the conversion is the identity and
  \<open>of_char\<close> reads a byte as a number.

  The header's numbers are IEEE doubles in the source and mathematical integers here.
  The two agree on every decimal token below \<open>2^53\<close>; beyond that \<^verbatim>\<open>parseInt\<close> rounds
  (and \<^verbatim>\<open>toString\<close> switches to exponent notation from \<open>10^21\<close>).
\<close>

record MapData =
  width :: int
  height :: int
  resolution :: real
  origin :: "real \<times> real \<times> real"
  data :: "int list"

datatype 'a promise = Resolved 'a | Rejected exn

definition createDummyMap :: "string \<Rightarrow> MapData" where
  "createDummyMap reason =
     \<lparr> width = 100, height = 100, resolution = 0.05, origin = (0, 0, 0),
       data = replicate 10000 (- 1) \<rparr>"

subsection \<open>Strings\<close>

abbreviation LF :: char where "LF \<equiv> CHR 0x0A"
abbreviation CR :: char where "CR \<equiv> CHR 0x0D"
abbreviation TAB :: char where "TAB \<equiv> CHR 0x09"

text \<open>
  White space as \<^verbatim>\<open>trim()\<close>, the regular expression class \<^verbatim>\<open>\s\<close> and \<^verbatim>\<open>parseInt\<close>
  see it, among the characters a byte can be: tab, line feed, vertical tab, form feed,
  carriage return, space and the no-break space \<^verbatim>\<open>U+00A0\<close>.
\<close>

definition is_space :: "char \<Rightarrow> bool" where
  "is_space c \<longleftrightarrow>
     c = CHR 0x09 \<or> c = CHR 0x0A \<or> c = CHR 0x0B \<or> c = CHR 0x0C \<or> c = CHR 0x0D \<or>
     c = CHR 0x20 \<or> c = CHR 0xA0"

definition trim :: "string \<Rightarrow> string" where
  "trim s = rev (dropWhile is_space (rev (dropWhile is_space s)))"

definition startsWith :: "string \<Rightarrow> string \<Rightarrow> bool" where
  "startsWith s p \<longleftrightarrow> take (length p) s = p"

text \<open>\<^verbatim>\<open>hay.includes(needle)\<close>\<close>

fun includes_str :: "string \<Rightarrow> string \<Rightarrow> bool" where
  "includes_str [] needle = (needle = [])"
| "includes_str (c # cs) needle = (startsWith (c # cs) needle \<or> includes_str cs needle)"

text \<open>\<^verbatim>\<open>view.slice(a, b)\<close> for \<open>a \<le> b \<le> length view\<close>\<close>

definition slice :: "string \<Rightarrow> nat \<Rightarrow> nat \<Rightarrow> string" where
  "slice view a b = take (b - a) (drop a view)"

text \<open>
  \<^verbatim>\<open>s.split(/\r?\n/)\<close>: a line feed, with the carriage return before it if there is
  one, separates two lines. A text without a line feed is one line.
\<close>

fun split_lines :: "string \<Rightarrow> string list" where
  "split_lines [] = [[]]"
| "split_lines [c] = (if c = LF then [[], []] else [[c]])"
| "split_lines (c # d # cs) =
     (if c = LF then [] # split_lines (d # cs)
      else if c = CR \<and> d = LF then [] # split_lines cs
      else (case split_lines (d # cs) of
              [] \<Rightarrow> [[c]]
            | l # ls \<Rightarrow> (c # l) # ls))"

text \<open>\<^verbatim>\<open>s.split(sep)\<close> for a one-character separator\<close>

fun split_on :: "char \<Rightarrow> string \<Rightarrow> string list" where
  "split_on sep [] = [[]]"
| "split_on sep (c # cs) =
     (if c = sep then [] # split_on sep cs
      else (case split_on sep cs of
              [] \<Rightarrow> [[c]]
            | l # ls \<Rightarrow> (c # l) # ls))"

text \<open>\<^verbatim>\<open>s.split(/\s+/)\<close>: a run of white space separates two parts.\<close>

function split_ws :: "string \<Rightarrow> string list" where
  "split_ws [] = [[]]"
| "split_ws (c # cs) =
     (if is_space c then [] # split_ws (dropWhile is_space cs)
      else (case split_ws cs of
              [] \<Rightarrow> [[c]]
            | l # ls \<Rightarrow> (c # l) # ls))"
  by pat_completeness auto
termination
  by (relation "measure length") (auto simp: length_dropWhile_le less_Suc_eq_le)

subsection \<open>Numbers\<close>

text \<open>
  The value of a character as a digit of radix \<open>R\<close>, if it is one: \<^verbatim>\<open>0\<close> to \<^verbatim>\<open>9\<close>, then
  the letters in either case.
\<close>

definition digit_of :: "nat \<Rightarrow> char \<Rightarrow> nat option" where
  "digit_of R c =
     (let n = (of_char c :: nat);
          v = (if 48 \<le> n \<and> n \<le> 57 then Some (n - 48)
               else if 97 \<le> n \<and> n \<le> 122 then Some (n - 87)
               else if 65 \<le> n \<and> n \<le> 90 then Some (n - 55)
               else None)
      in case v of None \<Rightarrow> None | Some d \<Rightarrow> if d < R then Some d else None)"

definition digits_value :: "nat \<Rightarrow> string \<Rightarrow> nat" where
  "digits_value R Z = foldl (\<lambda>a c. a * R + the (digit_of R c)) 0 Z"

text \<open>
  \<^verbatim>\<open>parseInt(str)\<close> with no radix: leading white space is skipped, a sign is read, a
  prefix \<^verbatim>\<open>0x\<close> or \<^verbatim>\<open>0X\<close> selects radix 16, and the longest run of digits is the value;
  whatever follows is ignored. No digit at all gives \<^verbatim>\<open>NaN\<close>, here \<open>None\<close>.
\<close>

definition parseInt :: "string \<Rightarrow> int option" where
  "parseInt str =
     (let s0 = dropWhile is_space str;
          neg = startsWith s0 ''-'';
          s1 = (if startsWith s0 ''-'' \<or> startsWith s0 ''+'' then drop 1 s0 else s0);
          hex = (startsWith s1 ''0x'' \<or> startsWith s1 ''0X'');
          R = (if hex then 16 else 10);
          s2 = (if hex then drop 2 s1 else s1);
          Z = takeWhile (\<lambda>c. digit_of R c \<noteq> None) s2
      in if Z = [] then None
         else Some ((if neg then - 1 else 1) * int (digits_value R Z)))"

text \<open>\<^verbatim>\<open>n.toString()\<close> of an integer (below \<open>10^21\<close> in magnitude)\<close>

fun show_nat :: "nat \<Rightarrow> string" where
  "show_nat n =
     (if n < 10 then [char_of (48 + n)]
      else show_nat (n div 10) @ [char_of (48 + n mod 10)])"

declare show_nat.simps [simp del]

definition toString :: "int \<Rightarrow> string" where
  "toString n = (if n < 0 then CHR ''-'' # show_nat (nat (- n)) else show_nat (nat n))"

subsection \<open>The header\<close>

text \<open>
  The first loop of \<^verbatim>\<open>reader.onload\<close>: the header text is the file's first 1000 bytes,
  cut after the first byte that is binary (below 32 and not a line feed, carriage
  return or tab); \<^verbatim>\<open>headerEnd\<close> is the index of that byte, or 0 if there is none.
\<close>

definition is_binary :: "char \<Rightarrow> bool" where
  "is_binary c \<longleftrightarrow> (of_char c :: nat) < 32 \<and> c \<noteq> LF \<and> c \<noteq> CR \<and> c \<noteq> TAB"

fun header_scan :: "string \<Rightarrow> nat \<Rightarrow> string \<times> nat" where
  "header_scan [] i = ([], 0)"
| "header_scan (c # cs) i =
     (if is_binary c then ([c], i)
      else (case header_scan cs (Suc i) of (headerStr, headerEnd) \<Rightarrow> (c # headerStr, headerEnd)))"

definition header_lines :: "string \<Rightarrow> string list" where
  "header_lines headerStr =
     filter (\<lambda>trimmed. trimmed \<noteq> [] \<and> \<not> startsWith trimmed ''#'')
       (map trim (split_lines headerStr))"

text \<open>
  The second search for the end of the header: from the first \<^verbatim>\<open>P5\<close> on, the first line
  feed whose ten preceding bytes contain the digits of \<^verbatim>\<open>maxval\<close>; the pixel data starts
  after it. 0 stands for "not found".
\<close>

function find_P5 :: "string \<Rightarrow> nat \<Rightarrow> nat" where
  "find_P5 view searchPos =
     (if searchPos + 1 < length view
      then (if view ! searchPos = CHR ''P'' \<and> view ! (searchPos + 1) = CHR ''5''
            then searchPos
            else find_P5 view (searchPos + 1))
      else searchPos)"
  by pat_completeness auto
termination
  by (relation "measure (\<lambda>(view, searchPos). length view - searchPos)") auto

declare find_P5.simps [simp del]

function find_header_end :: "string \<Rightarrow> string \<Rightarrow> nat \<Rightarrow> nat" where
  "find_header_end view needle searchPos =
     (if searchPos < length view
      then (if view ! searchPos = LF
               \<and> includes_str (slice view (searchPos - 10) searchPos) needle
            then searchPos + 1
            else find_header_end view needle (searchPos + 1))
      else 0)"
  by pat_completeness auto
termination
  by (relation "measure (\<lambda>(view, needle, searchPos). length view - searchPos)") auto

declare find_header_end.simps [simp del]

subsection \<open>The pixels\<close>

text \<open>
  \<^verbatim>\<open>new Array(expectedSize).fill(255)\<close>, then the loop that copies
  \<open>min (length pixelData) expectedSize\<close> bytes into it.
\<close>

definition fill_pixels :: "string \<Rightarrow> nat \<Rightarrow> int list" where
  "fill_pixels pixelData expectedSize =
     foldl (\<lambda>mapPixelData i. mapPixelData[i := of_char (pixelData ! i)])
       (replicate expectedSize 255)
       [0 ..< min (length pixelData) expectedSize]"

text \<open>
  The body of the \<^verbatim>\<open>try\<close> in \<^verbatim>\<open>reader.onload\<close>. Its one throw is \<^verbatim>\<open>new Array(n)\<close>,
  a \<^verbatim>\<open>RangeError\<close> unless \<open>0 \<le> n \<le> 2^32 - 1\<close>.
\<close>

definition parse_view :: "string \<Rightarrow> exn + MapData" where
  "parse_view view =
     (case header_scan (take 1000 view) 0 of (headerStr, headerEnd) \<Rightarrow>
      let validLines = header_lines headerStr in
      if length validLines < 3 then Inr (createDummyMap ''Invalid PGM header'')
      else if validLines ! 0 \<noteq> ''P5''
      then Inr (createDummyMap (''Unsupported format: '' @ validLines ! 0))
      else
        let dimensionParts = filter (\<lambda>part. 0 < length part) (split_ws (validLines ! 1)) in
        if length dimensionParts \<noteq> 2 then Inr (createDummyMap ''Invalid dimensions'')
        else
          (case (parseInt (dimensionParts ! 0), parseInt (dimensionParts ! 1),
                 parseInt (validLines ! 2)) of
             (Some w, Some h, Some maxval) \<Rightarrow>
               let found = find_header_end view (toString maxval) (find_P5 view 0);
                   actualHeaderEnd = (if found = 0 then headerEnd else found);
                   pixelData = drop actualHeaderEnd view;
                   expectedSize = w * h
               in if expectedSize < 0 \<or> 4294967295 < expectedSize then Inl RangeError
                  else Inr \<lparr> width = w, height = h, resolution = 0.05, origin = (0, 0, 0),
                            data = fill_pixels pixelData (nat expectedSize) \<rparr>
           | _ \<Rightarrow> Inr (createDummyMap ''Invalid header values'')))"

text \<open>
  \<^verbatim>\<open>parsePgmFile\<close> on a file whose bytes the \<^verbatim>\<open>FileReader\<close> delivers: the two size
  guards, then the \<^verbatim>\<open>try\<close> with its \<^verbatim>\<open>catch\<close>. (The fallbacks for a reader that
  fails are about the browser, not about the bytes; each of them ends in
  \<^verbatim>\<open>resolve\<close> as well.)
\<close>

definition parsePgmFile :: "string \<Rightarrow> MapData promise" where
  "parsePgmFile file =
     (if length file = 0 then Resolved (createDummyMap ''Empty file'')
      else if length file < 20 then Resolved (createDummyMap ''File too small'')
      else (case parse_view file of
              Inl e \<Rightarrow> Resolved (createDummyMap ''Parsing error'')
            | Inr mapData \<Rightarrow> Resolved mapData))"

text \<open>
  What \<open>parse_view\<close> reads from the header, for stating theorems: the header text, the
  parts of the dimension line, the three numbers if every check passes, and the pixel
  payload the decoder slices off for them.
\<close>

definition header_text :: "string \<Rightarrow> string" where
  "header_text view = fst (header_scan (take 1000 view) 0)"

definition dimension_parts :: "string \<Rightarrow> string list" where
  "dimension_parts line = filter (\<lambda>part. 0 < length part) (split_ws line)"

definition header_fields :: "string \<Rightarrow> (int \<times> int \<times> int) option" where
  "header_fields view =
     (let validLines = header_lines (header_text view) in
      if length validLines < 3 \<or> validLines ! 0 \<noteq> ''P5'' then None
      else if length (dimension_parts (validLines ! 1)) \<noteq> 2 then None
      else
        (case (parseInt (dimension_parts (validLines ! 1) ! 0),
               parseInt (dimension_parts (validLines ! 1) ! 1),
               parseInt (validLines ! 2)) of
           (Some w, Some h, Some maxval) \<Rightarrow> Some (w, h, maxval)
         | _ \<Rightarrow> None))"

definition pixel_payload :: "string \<Rightarrow> int \<Rightarrow> string" where
  "pixel_payload view maxval =
     (let found = find_header_end view (toString maxval) (find_P5 view 0);
          actualHeaderEnd = (if found = 0 then snd (header_scan (take 1000 view) 0) else found)
      in drop actualHeaderEnd view)"

text \<open>
  Modelled from the spec: the encoder is not part of the repository (the maps come from
  the robot's map server). It writes the format of section 6 of the specification: the
  marker line, the \<^verbatim>\<open>WIDTH HEIGHT\<close> line, the \<^verbatim>\<open>MAXVAL\<close> line (255 for cells of one
  byte), then one byte per cell.
\<close>

definition encode_pgm :: "MapData \<Rightarrow> string" where
  "encode_pgm g =
     ''P5'' @ [LF] @ toString (width g) @ '' '' @ toString (height g) @ [LF] @
     ''255'' @ [LF] @ map (\<lambda>v. char_of (nat v)) (data g)"

text \<open>
  A well-formed raster: positive width and height, \<open>width * height\<close> cells, each a
  byte. The decoder leaves resolution and origin at their defaults, so a grid that is
  to be compared with a decoded one carries the defaults too.
\<close>

definition well_formed :: "MapData \<Rightarrow> bool" where
  "well_formed g \<longleftrightarrow>
     0 < width g \<and> 0 < height g \<and> int (length (data g)) = width g * height g \<and>
     list_all (\<lambda>v. 0 \<le> v \<and> v \<le> 255) (data g) \<and>
     resolution g = 0.05 \<and> origin g = (0, 0, 0)"

text \<open>
  The index, in the encoding, of the line feed that ends the \<^verbatim>\<open>WIDTH HEIGHT\<close> line.
\<close>

definition dimension_line_end :: "MapData \<Rightarrow> nat" where
  "dimension_line_end g = 4 + length (toString (width g)) + length (toString (height g))"

text \<open>Two grids for examples: one cell, and 4 by 3 cells.\<close>

definition tiny_grid :: MapData where
  "tiny_grid = \<lparr> width = 1, height = 1, resolution = 0.05, origin = (0, 0, 0), data = [0] \<rparr>"

definition small_grid :: MapData where
  "small_grid =
     \<lparr> width = 4, height = 3, resolution = 0.05, origin = (0, 0, 0),
       data = [0, 10, 13, 35, 50, 53, 80, 100, 128, 205, 254, 255] \<rparr>"

text \<open>
  Files for examples, each of 20 bytes or more unless its name says otherwise: a wrong
  marker; a file that is too small; a width of zero; dimensions whose product is
  \<open>2^32\<close>; a payload 5 bytes short of its 4 by 4 cells.
\<close>

definition wrong_marker_file :: string where
  "wrong_marker_file = ''XX'' @ [LF] @ ''2 3'' @ [LF] @ ''255'' @ [LF] @ replicate 9 (CHR 0x07)"

definition short_file :: string where
  "short_file = ''P5'' @ [LF] @ ''1 1'' @ [LF] @ ''255'' @ [LF, CHR 0x07]"

definition zero_width_file :: string where
  "zero_width_file = ''P5'' @ [LF] @ ''0 5'' @ [LF] @ ''255'' @ [LF] @ replicate 9 (CHR 0x00)"



section \<open>The metadata decoder: \<^verbatim>\<open>parseYamlMetadata\<close>\<close>

text \<open>
  A JavaScript number as \<^verbatim>\<open>parseFloat\<close> returns it: \<^verbatim>\<open>NaN\<close>, an infinity or a finite
  value, taken here as the real number the decimal text denotes (the double nearest to
  it in the source).
\<close>

datatype number = NaN | Finite real | PosInfinity | NegInfinity

record MapMetadata =
  meta_resolution :: "number option"
  meta_origin :: "(number \<times> number \<times> number) option"

definition is_digit :: "char \<Rightarrow> bool" where
  "is_digit c \<longleftrightarrow> digit_of 10 c \<noteq> None"

text \<open>
  \<^verbatim>\<open>parseFloat(str)\<close>: leading white space is skipped and the longest prefix that is a
  decimal literal is read: a sign, then \<^verbatim>\<open>Infinity\<close> or digits with an optional
  fraction and an optional exponent (an \<^verbatim>\<open>e\<close> that no digit follows is not part of
  the number). No such prefix gives \<^verbatim>\<open>NaN\<close>.
\<close>

definition parseFloat :: "string \<Rightarrow> number" where
  "parseFloat str =
     (let s0 = dropWhile is_space str;
          neg = startsWith s0 ''-'';
          s1 = (if startsWith s0 ''-'' \<or> startsWith s0 ''+'' then drop 1 s0 else s0)
      in if startsWith s1 ''Infinity'' then (if neg then NegInfinity else PosInfinity)
         else
           let ip = takeWhile is_digit s1;
               r1 = dropWhile is_digit s1;
               fp = (if startsWith r1 ''.'' then takeWhile is_digit (drop 1 r1) else []);
               r2 = (if startsWith r1 ''.'' then dropWhile is_digit (drop 1 r1) else r1)
           in if ip = [] \<and> fp = [] then NaN
              else
                let mant = real (digits_value 10 ip) + real (digits_value 10 fp) / 10 ^ length fp;
                    e0 = (if startsWith r2 ''e'' \<or> startsWith r2 ''E'' then drop 1 r2 else []);
                    eneg = startsWith e0 ''-'';
                    e1 = (if startsWith e0 ''-'' \<or> startsWith e0 ''+'' then drop 1 e0 else e0);
                    ed = takeWhile is_digit e1;
                    x = (if ed = [] then mant
                         else if eneg then mant / 10 ^ digits_value 10 ed
                         else mant * 10 ^ digits_value 10 ed)
                in Finite (if neg then - x else x))"

text \<open>\<^verbatim>\<open>if (x)\<close> for a number: \<^verbatim>\<open>NaN\<close> and zero are falsy.\<close>

fun number_truthy :: "number \<Rightarrow> bool" where
  "number_truthy NaN = False"
| "number_truthy (Finite x) = (x \<noteq> 0)"
| "number_truthy PosInfinity = True"
| "number_truthy NegInfinity = True"

text \<open>
  \<^verbatim>\<open>value.match(/\[(.*?)\]/)\<close>: the text between the first \<^verbatim>\<open>[\<close> and the nearest
  \<^verbatim>\<open>]\<close> after it. The dot matches no line terminator, so a bracket with a carriage
  return before its \<^verbatim>\<open>]\<close> is passed over and the search goes on behind it.
\<close>

fun until_bracket :: "string \<Rightarrow> string option" where
  "until_bracket [] = None"
| "until_bracket (c # cs) =
     (if c = CHR '']'' then Some []
      else if c = LF \<or> c = CR then None
      else map_option ((#) c) (until_bracket cs))"

fun match_brackets :: "string \<Rightarrow> string option" where
  "match_brackets [] = None"
| "match_brackets (c # cs) =
     (if c = CHR ''['' then
        (case until_bracket cs of
           Some inner \<Rightarrow> Some inner
         | None \<Rightarrow> match_brackets cs)
      else match_brackets cs)"

text \<open>The numbers of an \<^verbatim>\<open>origin\<close> value: \<^verbatim>\<open>coords\<close> in the source.\<close>

definition origin_coords :: "string \<Rightarrow> number list" where
  "origin_coords v =
     (if CHR ''['' \<in> set v \<and> CHR '']'' \<in> set v then
        (case match_brackets v of
           Some inner \<Rightarrow> map (\<lambda>s. parseFloat (trim s)) (split_on CHR '','' inner)
         | None \<Rightarrow> [])
      else if CHR '','' \<in> set v then map (\<lambda>s. parseFloat (trim s)) (split_on CHR '','' v)
      else [])"

text \<open>One round of the loop over the lines.\<close>

definition yaml_line :: "MapMetadata \<Rightarrow> string \<Rightarrow> MapMetadata" where
  "yaml_line metadata line =
     (let trimmed = trim line in
      if trimmed = [] \<or> startsWith trimmed ''#'' then metadata
      else if CHR '':'' \<in> set trimmed then
        let colonIndex = length (takeWhile (\<lambda>c. c \<noteq> CHR '':'') trimmed);
            key = trim (take colonIndex trimmed);
            val = trim (drop (colonIndex + 1) trimmed)
        in if key = ''resolution'' then
             (let res = parseFloat val in
              if res \<noteq> NaN then metadata\<lparr> meta_resolution := Some res \<rparr> else metadata)
           else if key = ''origin'' then
             (let coords = origin_coords val in
              if 2 \<le> length coords \<and> list_all (\<lambda>c. c \<noteq> NaN) coords
              then metadata\<lparr> meta_origin :=
                     Some (coords ! 0, coords ! 1,
                           if 2 < length coords \<and> number_truthy (coords ! 2)
                           then coords ! 2 else Finite 0) \<rparr>
              else metadata)
           else metadata
      else metadata)"

text \<open>
  \<^verbatim>\<open>parseYamlMetadata\<close> on the decoded text of the file (\<^verbatim>\<open>TextDecoder\<close> is the
  browser's): a text that is empty after trimming rejects the promise, any other
  resolves with what the lines set.
\<close>

definition parseYamlMetadata :: "string \<Rightarrow> MapMetadata promise" where
  "parseYamlMetadata content =
     (if trim content = [] then Rejected Error
      else Resolved (foldl yaml_line \<lparr> meta_resolution = None, meta_origin = None \<rparr>
                       (split_lines content)))"

text \<open>The key of a line, as the loop reads it, if the line has one.\<close>

definition line_key :: "string \<Rightarrow> string option" where
  "line_key line =
     (let trimmed = trim line in
      if trimmed = [] \<or> startsWith trimmed ''#'' \<or> CHR '':'' \<notin> set trimmed then None
      else Some (trim (take (length (takeWhile (\<lambda>c. c \<noteq> CHR '':'') trimmed)) trimmed)))"

definition line_value :: "string \<Rightarrow> string" where
  "line_value line =
     (let trimmed = trim line in
      trim (drop (length (takeWhile (\<lambda>c. c \<noteq> CHR '':'') trimmed) + 1) trimmed))"

text \<open>A metadata file for examples, as the map server writes it.\<close>

definition yaml_example :: string where
  "yaml_example =
     ''image: map.pgm'' @ [LF] @ ''resolution: 0.05'' @ [CR, LF] @
     ''# pose of the lower-left pixel'' @ [LF] @
     ''origin: [-10.0, -21.2, 0.0]'' @ [LF] @ ''negate: 0'' @ [LF]"

section \<open>The coordinate transform: \<^verbatim>\<open>MapParser.worldToPixel\<close>, \<^verbatim>\<open>MapParser.pixelToWorld\<close>\<close>




section \<open>Properties of the pub/sub client\<close>

lemmas service_defs = new_service_def onConnection_def onDisconnection_def connect_caught_def
  connect_def onopen_def onclose_def onerror_def handleReconnect_def readyState_of_def
  isConnected_def socket_close_def disconnect_def subscribe_def

lemma connected_service_isConnected: "isConnected connected_service"
  by (simp add: connected_service_def service_defs)

subsection \<open>Subscribing\<close>

text \<open>
  Claim C5, as the code has it. \<^verbatim>\<open>subscribe\<close> returns before it touches the registry
  when the client is not connected: then nothing is registered, sent or queued, and
  the console gets the error line. When the client is connected the registry maps the
  topic to the handler, whatever it held for the topic before, and one subscribe frame
  goes to the current socket.
\<close>

theorem subscribe_only_when_connected:
  "(isConnected s \<longrightarrow>
      subscribe tp ty cb s =
        s\<lparr> subscribers := (subscribers s)(tp \<mapsto> cb),
           sent := sent s @ [(the (ws s), Frame ''subscribe'' tp None ty)] \<rparr>
      \<and> subscribers (subscribe tp ty cb s) tp = Some cb)
   \<and> (\<not> isConnected s \<longrightarrow>
      subscribe tp ty cb s = s\<lparr> console := console s @ [LogNotConnected] \<rparr>
      \<and> subscribers (subscribe tp ty cb s) = subscribers s
      \<and> sent (subscribe tp ty cb s) = sent s
      \<and> timers (subscribe tp ty cb s) = timers s)"
  by (auto simp: subscribe_def isConnected_def split: option.splits)

text \<open>Both cases of C5 at concrete states: the connected example and a fresh service.\<close>

theorem subscribe_only_when_connected_witness:
  "isConnected connected_service
   \<and> subscribers (subscribe ''a'' ''t'' 7 connected_service) ''a'' = Some 7
   \<and> sent (subscribe ''a'' ''t'' 7 connected_service) = [(0, Frame ''subscribe'' ''a'' None ''t'')]
   \<and> \<not> isConnected (new_service True)
   \<and> subscribers (subscribe ''a'' ''t'' 7 (new_service True)) = subscribers (new_service True)
   \<and> sent (subscribe ''a'' ''t'' 7 (new_service True)) = sent (new_service True)
   \<and> console (subscribe ''a'' ''t'' 7 (new_service True)) = [LogNotConnected]"
proof -
  have c: "isConnected connected_service" by (rule connected_service_isConnected)
  have n: "\<not> isConnected (new_service True)" by (simp add: service_defs)
  have w: "ws connected_service = Some 0" "sent connected_service = []"
    "console (new_service True) = []"
    by (simp_all add: connected_service_def service_defs)
  from subscribe_only_when_connected [of connected_service "''a''" "''t''" 7]
    subscribe_only_when_connected [of "new_service True" "''a''" "''t''" 7] c n w
  show ?thesis by simp
qed

text \<open>
  C5 as stated fails on a service that is not connected: after \<^verbatim>\<open>subscribe\<close> the
  registry has no handler for the topic.
\<close>

theorem subscribe_unconnected_counterexample:
  "\<not> isConnected (new_service True)
   \<and> subscribers (subscribe ''a'' ''std_msgs/String'' 7 (new_service True)) ''a'' = None"
  by (simp add: service_defs)

subsection \<open>Inbound dispatch\<close>

lemma get_member_truthy_topic:
  "get_member d ''topic'' = Inr t \<Longrightarrow> truthy t \<Longrightarrow> \<exists>ps. d = JObj ps"
  by (cases d) auto

lemma onmessage_frame:
  "onmessage s ev = s\<lparr> invoked := invoked (onmessage s ev), console := console (onmessage s ev) \<rparr>"
  by (auto simp: onmessage_def dispatch_def split: inbound.splits sum.splits)

lemma subscribers_onmessage [simp]: "subscribers (onmessage s ev) = subscribers s"
  by (subst onmessage_frame) simp

lemma subscribers_foldl_onmessage [simp]: "subscribers (foldl onmessage s evs) = subscribers s"
  by (induction evs arbitrary: s) auto

lemma onmessage_topic:
  assumes "get_member d ''topic'' = Inr (JStr a)" and "a \<noteq> []" and "subscribers s a = Some h"
  shows "invoked (onmessage s (Parsed d)) = invoked s @ [TopicHandler h (msg_of d)]"
proof -
  from assms(1) assms(2) obtain ps where d: "d = JObj ps"
    using get_member_truthy_topic [of d "JStr a"] by auto
  show ?thesis
    using assms by (simp add: d onmessage_def dispatch_def registered_def msg_of_def)
qed

text \<open>
  Claim C10. \<^verbatim>\<open>onmessage\<close> is total and calls at most one handler. It calls one exactly
  when the frame parses, its \<^verbatim>\<open>topic\<close> is truthy and a handler is registered for it,
  and then it is that handler, with the frame's \<^verbatim>\<open>msg\<close>. A frame on the empty topic
  calls nothing even if a handler is registered under the empty string. Apart from the
  call and the console the state is unchanged, and a throw inside the \<^verbatim>\<open>try\<close> ends in
  the log line of the \<^verbatim>\<open>catch\<close>.
\<close>

theorem onmessage_invokes_iff:
  "((\<exists>c. invoked (onmessage s ev) = invoked s @ [c]) \<longleftrightarrow>
      (\<exists>d t. ev = Parsed d \<and> get_member d ''topic'' = Inr t \<and> truthy t \<and> registered s t \<noteq> None))
   \<and> ((invoked (onmessage s ev) = invoked s) \<longleftrightarrow>
      \<not> (\<exists>d t. ev = Parsed d \<and> get_member d ''topic'' = Inr t \<and> truthy t \<and> registered s t \<noteq> None))
   \<and> (\<forall>d t h. ev = Parsed d \<and> get_member d ''topic'' = Inr t \<and> truthy t \<and> registered s t = Some h
         \<longrightarrow> invoked (onmessage s ev) = invoked s @ [TopicHandler h (msg_of d)])
   \<and> (\<forall>h m. subscribers s [] = Some h \<longrightarrow> invoked (onmessage s (Parsed (envelope [] m))) = invoked s)
   \<and> onmessage s ev = s\<lparr> invoked := invoked (onmessage s ev), console := console (onmessage s ev) \<rparr>
   \<and> (\<forall>e. dispatch s ev = Inl e \<longrightarrow> onmessage s ev = s\<lparr> console := console s @ [LogParseError] \<rparr>)"
proof -
  have a: "((\<exists>c. invoked (onmessage s ev) = invoked s @ [c]) \<longleftrightarrow>
      (\<exists>d t. ev = Parsed d \<and> get_member d ''topic'' = Inr t \<and> truthy t \<and> registered s t \<noteq> None))"
    by (cases ev) (auto simp: onmessage_def dispatch_def split: sum.splits dest!: get_member_truthy_topic)
  have b: "((invoked (onmessage s ev) = invoked s) \<longleftrightarrow>
      \<not> (\<exists>d t. ev = Parsed d \<and> get_member d ''topic'' = Inr t \<and> truthy t \<and> registered s t \<noteq> None))"
    by (cases ev) (auto simp: onmessage_def dispatch_def split: sum.splits dest!: get_member_truthy_topic)
  have c: "\<forall>d t h. ev = Parsed d \<and> get_member d ''topic'' = Inr t \<and> truthy t \<and> registered s t = Some h
         \<longrightarrow> invoked (onmessage s ev) = invoked s @ [TopicHandler h (msg_of d)]"
    by (auto simp: onmessage_def dispatch_def msg_of_def split: sum.splits dest!: get_member_truthy_topic)
  have d: "\<forall>h m. subscribers s [] = Some h \<longrightarrow> invoked (onmessage s (Parsed (envelope [] m))) = invoked s"
    by (simp add: onmessage_def dispatch_def envelope_def)
  have e: "\<forall>e. dispatch s ev = Inl e \<longrightarrow> onmessage s ev = s\<lparr> console := console s @ [LogParseError] \<rparr>"
    by (simp add: onmessage_def)
  from a b c d e onmessage_frame [of s ev] show ?thesis by blast
qed

text \<open>
  C10 at a state with handlers under \<^verbatim>\<open>a\<close> and under the empty string: a frame on
  \<^verbatim>\<open>a\<close> calls handler 8, a frame on the empty topic calls nothing, and the frame
  \<^verbatim>\<open>null\<close>, whose \<^verbatim>\<open>topic\<close> cannot be read, is caught.
\<close>

theorem onmessage_invokes_iff_witness:
  "registered two_topics (JStr ''a'') = Some 8 \<and> subscribers two_topics [] = Some 9
   \<and> invoked (onmessage two_topics (Parsed (envelope ''a'' (JNum 3))))
       = invoked two_topics @ [TopicHandler 8 (msg_of (envelope ''a'' (JNum 3)))]
   \<and> invoked (onmessage two_topics (Parsed (envelope [] (JNum 3)))) = invoked two_topics
   \<and> dispatch two_topics (Parsed JNull) = Inl TypeError
   \<and> onmessage two_topics (Parsed JNull) = two_topics\<lparr> console := console two_topics @ [LogParseError] \<rparr>"
proof -
  have r: "registered two_topics (JStr ''a'') = Some 8" "subscribers two_topics [] = Some 9"
    by (simp_all add: two_topics_def connected_service_def registered_def service_defs)
  have t: "get_member (envelope ''a'' (JNum 3)) ''topic'' = Inr (JStr ''a'')" "truthy (JStr ''a'')"
    by (simp_all add: envelope_def)
  have n: "dispatch two_topics (Parsed JNull) = Inl TypeError"
    by (simp add: dispatch_def)
  from onmessage_invokes_iff [of two_topics "Parsed (envelope ''a'' (JNum 3))"]
    onmessage_invokes_iff [of two_topics "Parsed JNull"] r t n
  show ?thesis by simp
qed

text \<open>
  Claim C8. On a connected client, after \<^verbatim>\<open>subscribe(a, t, h1)\<close> and then
  \<^verbatim>\<open>subscribe(a, t, h2)\<close> the registry holds \<open>h2\<close> for the topic, and whatever frames
  \<open>evs\<close> arrive in between, a frame on topic \<open>a\<close> calls \<open>h2\<close> with the frame's
  \<^verbatim>\<open>msg\<close> and calls nothing else, so never \<open>h1\<close>. (The topic is not the empty
  string, on which nothing is ever dispatched.)
\<close>

theorem last_registered_handler_wins:
  assumes "isConnected s" and "a \<noteq> []"
    and "get_member d ''topic'' = Inr (JStr a)"
  shows "subscribers (subscribe a t h2 (subscribe a t h1 s)) a = Some h2
    \<and> invoked (onmessage (foldl onmessage (subscribe a t h2 (subscribe a t h1 s)) evs) (Parsed d))
        = invoked (foldl onmessage (subscribe a t h2 (subscribe a t h1 s)) evs)
            @ [TopicHandler h2 (msg_of d)]"
proof -
  let ?s2 = "subscribe a t h2 (subscribe a t h1 s)"
  have reg: "subscribers ?s2 a = Some h2"
    using assms(1) by (auto simp: subscribe_def isConnected_def readyState_of_def split: option.splits)
  then have "subscribers (foldl onmessage ?s2 evs) a = Some h2" by simp
  from onmessage_topic [OF assms(3) assms(2) this] reg show ?thesis by simp
qed

text \<open>
  C8 on the connected example with handlers 11 and then 12 for \<^verbatim>\<open>a\<close>: after an
  unparseable frame and a frame on another topic, a frame on \<^verbatim>\<open>a\<close> calls handler 12.
\<close>

theorem last_registered_handler_wins_witness:
  "isConnected connected_service \<and> ''a'' \<noteq> []
   \<and> get_member (envelope ''a'' (JNum 3)) ''topic'' = Inr (JStr ''a'')
   \<and> subscribers (subscribe ''a'' ''t'' 12 (subscribe ''a'' ''t'' 11 connected_service)) ''a'' = Some 12
   \<and> invoked (onmessage (foldl onmessage (subscribe ''a'' ''t'' 12 (subscribe ''a'' ''t'' 11 connected_service))
         [Unparseable, Parsed (envelope ''b'' JNull)]) (Parsed (envelope ''a'' (JNum 3))))
      = invoked (foldl onmessage (subscribe ''a'' ''t'' 12 (subscribe ''a'' ''t'' 11 connected_service))
         [Unparseable, Parsed (envelope ''b'' JNull)]) @ [TopicHandler 12 (msg_of (envelope ''a'' (JNum 3)))]"
proof -
  have c: "isConnected connected_service" by (rule connected_service_isConnected)
  have a: "''a'' \<noteq> []" by simp
  have t: "get_member (envelope ''a'' (JNum 3)) ''topic'' = Inr (JStr ''a'')"
    by (simp add: envelope_def)
  show ?thesis
    using c a t
      last_registered_handler_wins [OF c a t, of "''t''" 12 11 "[Unparseable, Parsed (envelope ''b'' JNull)]"]
    by simp
qed

subsection \<open>Disconnecting\<close>

text \<open>
  Claim C3, as the code has it. \<^verbatim>\<open>disconnect()\<close> closes the current socket, if there is
  one, and clears \<^verbatim>\<open>this.ws\<close>: afterwards the client is not connected, and the socket
  it dropped can neither open nor deliver a message, so a connection attempt in flight
  on it never completes. Nothing else changes: the pending timers, the attempt counter,
  the registry and every other socket are as they were.
\<close>

theorem disconnect_closes_current_socket:
  "ws (disconnect s) = None \<and> \<not> isConnected (disconnect s)
   \<and> timers (disconnect s) = timers s
   \<and> reconnectAttempts (disconnect s) = reconnectAttempts s
   \<and> subscribers (disconnect s) = subscribers s
   \<and> length (sockets (disconnect s)) = length (sockets s)
   \<and> (\<forall>i. ws s = Some i \<longrightarrow>
         \<not> enabled (disconnect s) (SocketOpen i)
         \<and> (\<forall>ev. \<not> enabled (disconnect s) (SocketMessage i ev))
         \<and> (\<forall>j. j \<noteq> i \<longrightarrow> readyState_of (disconnect s) j = readyState_of s j))"
  by (auto simp: disconnect_def socket_close_def isConnected_def readyState_of_def
      split: option.splits if_splits)

text \<open>
  C3 on a service whose first connection attempt is in flight: before the call the
  socket could open, after it it cannot.
\<close>

theorem disconnect_closes_current_socket_witness:
  "ws (connect_caught (new_service True)) = Some 0
   \<and> enabled (connect_caught (new_service True)) (SocketOpen 0)
   \<and> \<not> enabled (disconnect (connect_caught (new_service True))) (SocketOpen 0)
   \<and> ws (disconnect (connect_caught (new_service True))) = None"
proof -
  have w: "ws (connect_caught (new_service True)) = Some 0"
    by (simp add: service_defs)
  have e: "enabled (connect_caught (new_service True)) (SocketOpen 0)"
    by (simp add: service_defs)
  from disconnect_closes_current_socket [of "connect_caught (new_service True)"] w e
  show ?thesis by simp
qed

text \<open>
  C3 as stated fails. A service registers listener 1, calls \<^verbatim>\<open>connect()\<close> and, with the
  attempt in flight, \<^verbatim>\<open>disconnect()\<close>. The socket it closed then reports \<^verbatim>\<open>close\<close>,
  whose handler schedules a reconnect; the timer fires and constructs a second socket;
  that socket opens. The client is connected again and the listener has been called,
  all after \<^verbatim>\<open>disconnect()\<close> returned. Likewise a timer that is pending when
  \<^verbatim>\<open>disconnect()\<close> is called (here after an unexpected close) is still pending after it.
\<close>

theorem disconnect_reconnects_counterexample:
  "map_option isConnected
     (run [SocketClose 0, Timeout, SocketOpen 1]
        (disconnect (connect_caught (onConnection 1 (new_service True))))) = Some True
   \<and> map_option sockets
     (run [SocketClose 0, Timeout, SocketOpen 1]
        (disconnect (connect_caught (onConnection 1 (new_service True))))) = Some [CLOSED, OPEN]
   \<and> map_option invoked
     (run [SocketClose 0, Timeout, SocketOpen 1]
        (disconnect (connect_caught (onConnection 1 (new_service True))))) = Some [ConnectionCb 1]
   \<and> timers (disconnect (fire (SocketClose 0) connected_service)) = 1"
  by (simp add: connected_service_def service_defs)

subsection \<open>Reconnecting\<close>

lemma sockets_onclose [simp]: "sockets (onclose s) = sockets s"
  by (simp add: onclose_def handleReconnect_def)

lemma failed_attempt_result:
  assumes "url_accepted s" and "0 < timers s"
  shows "\<exists>s'. failed_attempt s = Some s' \<and> url_accepted s' \<and>
     maxReconnectAttempts s' = maxReconnectAttempts s \<and>
     sockets s' = sockets s @ [CLOSED] \<and> ws s' = Some (length (sockets s)) \<and>
     reconnectAttempts s' =
       (if reconnectAttempts s < maxReconnectAttempts s then reconnectAttempts s + 1
        else reconnectAttempts s) \<and>
     timers s' = timers s - 1 + (if reconnectAttempts s < maxReconnectAttempts s then 1 else 0)"
  using assms
  by (simp add: failed_attempt_def service_defs)

text \<open>While the counter is below the bound, every failed attempt leaves a timer pending.\<close>

lemma failed_attempts_pending:
  assumes "url_accepted s" and "timers s = 1"
    and "reconnectAttempts s + k = maxReconnectAttempts s" and "j \<le> k"
  shows "\<exists>s'. failed_attempts j s = Some s' \<and> timers s' = 1 \<and> url_accepted s'
     \<and> reconnectAttempts s' = reconnectAttempts s + j
     \<and> maxReconnectAttempts s' = maxReconnectAttempts s
     \<and> sockets s' = sockets s @ replicate j CLOSED"
  using assms
proof (induction j arbitrary: s k)
  case 0
  then show ?case by simp
next
  case (Suc j)
  from failed_attempt_result [of s] Suc.prems
  obtain s1 where s1: "failed_attempt s = Some s1" "url_accepted s1"
    "maxReconnectAttempts s1 = maxReconnectAttempts s" "sockets s1 = sockets s @ [CLOSED]"
    "reconnectAttempts s1 = reconnectAttempts s + 1" "timers s1 = 1"
    by auto
  from Suc.prems s1 have "reconnectAttempts s1 + (k - 1) = maxReconnectAttempts s1" "j \<le> k - 1"
    by auto
  from Suc.IH [OF s1(2) s1(6) this] s1 show ?case
    by (auto simp: replicate_append_same)
qed

text \<open>The attempt made with the counter at the bound leaves none.\<close>

lemma failed_attempts_exhaust:
  assumes "url_accepted s" and "timers s = 1"
    and "reconnectAttempts s + k = maxReconnectAttempts s"
  shows "\<exists>s'. failed_attempts (Suc k) s = Some s' \<and> timers s' = 0
     \<and> reconnectAttempts s' = maxReconnectAttempts s
     \<and> maxReconnectAttempts s' = maxReconnectAttempts s
     \<and> sockets s' = sockets s @ replicate (Suc k) CLOSED
     \<and> ws s' = Some (length (sockets s) + k)"
  using assms
proof (induction k arbitrary: s)
  case 0
  with failed_attempt_result [of s] show ?case by auto
next
  case (Suc k)
  from failed_attempt_result [of s] Suc.prems
  obtain s1 where s1: "failed_attempt s = Some s1" "url_accepted s1"
    "maxReconnectAttempts s1 = maxReconnectAttempts s" "sockets s1 = sockets s @ [CLOSED]"
    "reconnectAttempts s1 = reconnectAttempts s + 1" "timers s1 = 1"
    by auto
  from Suc.prems s1 have "reconnectAttempts s1 + k = maxReconnectAttempts s1" by simp
  from Suc.IH [OF s1(2) s1(6) this] s1 show ?case
    by (auto simp: replicate_append_same)
qed

lemma closed_readyState:
  assumes "\<forall>r \<in> set (sockets s). r = CLOSED"
  shows "readyState_of s j = None \<or> readyState_of s j = Some CLOSED"
  using assms nth_mem [of j "sockets s"] by (auto simp: readyState_of_def)

lemma all_closed_quiet:
  assumes "timers s = 0" and "\<forall>r \<in> set (sockets s). r = CLOSED"
  shows "\<not> enabled s e"
proof (cases e)
  case (SocketOpen j)
  with closed_readyState [OF assms(2), of j] show ?thesis by auto
next
  case (SocketMessage j ev)
  with closed_readyState [OF assms(2), of j] show ?thesis by auto
next
  case (SocketError j)
  with closed_readyState [OF assms(2), of j] show ?thesis by auto
next
  case (SocketClose j)
  with closed_readyState [OF assms(2), of j] show ?thesis by auto
next
  case Timeout
  with assms(1) show ?thesis by simp
qed

lemma all_closed_not_connected:
  assumes "\<forall>r \<in> set (sockets s). r = CLOSED"
  shows "\<not> isConnected s"
proof (cases "ws s")
  case None
  then show ?thesis by (simp add: isConnected_def)
next
  case (Some j)
  with closed_readyState [OF assms, of j] show ?thesis by (auto simp: isConnected_def)
qed

text \<open>
  Claim C6. Take a connected client with a fresh counter, no timer pending and no
  other socket alive, and let its socket close unexpectedly. After
  \<open>maxReconnectAttempts\<close> failed reconnect attempts in a row the client is not
  connected, no timer is pending and the browser has no event left to deliver: no
  further attempt is made. After fewer failed attempts a timer is pending, so the next
  attempt is scheduled exactly while the counter is below the bound.
\<close>

theorem reconnect_attempts_bounded:
  assumes "url_accepted s" and "ws s = Some i" and "readyState_of s i = Some OPEN"
    and "\<forall>j < length (sockets s). j \<noteq> i \<longrightarrow> sockets s ! j = CLOSED"
    and "reconnectAttempts s = 0" and "timers s = 0"
  shows "(\<exists>s'. failed_attempts (maxReconnectAttempts s) (fire (SocketClose i) s) = Some s'
            \<and> \<not> isConnected s' \<and> timers s' = 0 \<and> (\<forall>e. \<not> enabled s' e)
            \<and> reconnectAttempts s' = maxReconnectAttempts s
            \<and> length (sockets s') = length (sockets s) + maxReconnectAttempts s)
       \<and> (\<forall>k < maxReconnectAttempts s.
            \<exists>s'. failed_attempts k (fire (SocketClose i) s) = Some s' \<and> timers s' = 1
              \<and> reconnectAttempts s' = k + 1)"
proof -
  let ?s0 = "fire (SocketClose i) s"
  let ?m = "maxReconnectAttempts s"
  from assms(3) have i: "i < length (sockets s)"
    by (auto simp: readyState_of_def split: if_splits)
  have closed0: "\<forall>r \<in> set (sockets ?s0). r = CLOSED"
  proof
    fix r assume "r \<in> set (sockets ?s0)"
    then obtain j where j: "j < length (sockets s)" "r = (sockets s)[i := CLOSED] ! j"
      by (auto simp: in_set_conv_nth)
    with assms(4) i show "r = CLOSED" by (cases "j = i") auto
  qed
  have len0: "length (sockets ?s0) = length (sockets s)"
    by simp
  have url0: "url_accepted ?s0" and max0: "maxReconnectAttempts ?s0 = ?m"
    using assms(1) by (simp_all add: onclose_def handleReconnect_def)
  show ?thesis
  proof (cases "?m = 0")
    case True
    then have "timers ?s0 = 0" using assms by (simp add: onclose_def handleReconnect_def)
    moreover have "reconnectAttempts ?s0 = 0"
      using True assms by (simp add: onclose_def handleReconnect_def)
    ultimately show ?thesis
      using True closed0 len0 all_closed_quiet [of ?s0] all_closed_not_connected [of ?s0]
      by auto
  next
    case False
    then have t0: "timers ?s0 = 1" and a0: "reconnectAttempts ?s0 = 1"
      using assms by (simp_all add: onclose_def handleReconnect_def)
    from False a0 max0 have sum0: "reconnectAttempts ?s0 + (?m - 1) = maxReconnectAttempts ?s0"
      by simp
    from failed_attempts_exhaust [OF url0 t0 sum0] False
    obtain s' where s': "failed_attempts ?m ?s0 = Some s'" "timers s' = 0"
      "reconnectAttempts s' = maxReconnectAttempts ?s0"
      "sockets s' = sockets ?s0 @ replicate ?m CLOSED"
      by auto
    from s'(4) closed0 have closed': "\<forall>r \<in> set (sockets s'). r = CLOSED" by auto
    have first: "\<exists>s'. failed_attempts ?m ?s0 = Some s'
            \<and> \<not> isConnected s' \<and> timers s' = 0 \<and> (\<forall>e. \<not> enabled s' e)
            \<and> reconnectAttempts s' = ?m
            \<and> length (sockets s') = length (sockets s) + ?m"
      using s' max0 len0 closed' all_closed_quiet [OF s'(2) closed']
        all_closed_not_connected [OF closed']
      by auto
    have second: "\<forall>k < ?m. \<exists>s'. failed_attempts k ?s0 = Some s' \<and> timers s' = 1
              \<and> reconnectAttempts s' = k + 1"
    proof (intro allI impI)
      fix k assume "k < ?m"
      then have "k \<le> ?m - 1" by simp
      from failed_attempts_pending [OF url0 t0 sum0 this] a0 show
        "\<exists>s'. failed_attempts k ?s0 = Some s' \<and> timers s' = 1 \<and> reconnectAttempts s' = k + 1"
        by auto
    qed
    from first second show ?thesis by blast
  qed
qed

text \<open>
  C6 on the connected example, whose bound is the 5 of the source: five failed attempts
  after the close leave six closed sockets, no timer and nothing to deliver.
\<close>

theorem reconnect_attempts_bounded_witness:
  "url_accepted connected_service \<and> ws connected_service = Some 0
   \<and> readyState_of connected_service 0 = Some OPEN
   \<and> reconnectAttempts connected_service = 0 \<and> timers connected_service = 0
   \<and> maxReconnectAttempts connected_service = 5
   \<and> (\<exists>s'. failed_attempts 5 (fire (SocketClose 0) connected_service) = Some s'
            \<and> \<not> isConnected s' \<and> timers s' = 0 \<and> (\<forall>e. \<not> enabled s' e)
            \<and> reconnectAttempts s' = 5
            \<and> length (sockets s') = 6)"
proof -
  have h: "url_accepted connected_service" "ws connected_service = Some 0"
    "readyState_of connected_service 0 = Some OPEN"
    "\<forall>j < length (sockets connected_service). j \<noteq> 0 \<longrightarrow> sockets connected_service ! j = CLOSED"
    "reconnectAttempts connected_service = 0" "timers connected_service = 0"
    by (simp_all add: connected_service_def service_defs)
  have m: "maxReconnectAttempts connected_service = 5" "length (sockets connected_service) = 1"
    by (simp_all add: connected_service_def service_defs)
  from reconnect_attempts_bounded [OF h] m h show ?thesis by simp
qed

section \<open>Properties of the raster decoder\<close>

lemma createDummyMap_reason: "createDummyMap r = createDummyMap r'"
  by (simp add: createDummyMap_def)

lemma createDummyMap_Cons: "createDummyMap (c # cs) = createDummyMap []"
  by (rule createDummyMap_reason)

text \<open>The copy loop writes the payload's first bytes and leaves 255 behind them.\<close>

lemma fill_pixels_loop:
  assumes "j \<le> length pd" and "j \<le> n"
  shows "foldl (\<lambda>a i. a[i := of_char (pd ! i)]) (replicate n (255::int)) [0 ..< j]
     = map of_char (take j pd) @ replicate (n - j) 255"
  using assms
proof (induction j)
  case 0
  then show ?case by simp
next
  case (Suc j)
  then have IH: "foldl (\<lambda>a i. a[i := of_char (pd ! i)]) (replicate n (255::int)) [0 ..< j]
     = map of_char (take j pd) @ replicate (n - j) 255" by simp
  from Suc.prems have r: "replicate (n - j) (255::int) = 255 # replicate (n - Suc j) 255"
    by (cases "n - j") (auto simp: Suc_diff_Suc)
  from Suc.prems have t: "take (Suc j) pd = take j pd @ [pd ! j]"
    by (simp add: take_Suc_conv_app_nth)
  from Suc.prems have m: "min (length pd) j = j" by simp
  show ?case
    by (simp add: IH r t list_update_append m del: replicate_Suc)
qed

lemma fill_pixels_eq:
  "fill_pixels pd n = map of_char (take n pd) @ replicate (n - length pd) 255"
proof (cases "length pd \<le> n")
  case True
  then show ?thesis
    using fill_pixels_loop [of "length pd" pd n] by (simp add: fill_pixels_def min_def)
next
  case False
  then show ?thesis
    using fill_pixels_loop [of n pd n] by (simp add: fill_pixels_def min_def)
qed

lemma length_fill_pixels [simp]: "length (fill_pixels pd n) = n"
  by (simp add: fill_pixels_eq)

text \<open>The decoder in terms of what it reads from the header.\<close>

lemma parse_view_fields:
  "parse_view view =
     (case header_fields view of
        None \<Rightarrow> Inr (createDummyMap [])
      | Some (w, h, maxval) \<Rightarrow>
          if w * h < 0 \<or> 4294967295 < w * h then Inl RangeError
          else Inr \<lparr> width = w, height = h, resolution = 0.05, origin = (0, 0, 0),
                    data = fill_pixels (pixel_payload view maxval) (nat (w * h)) \<rparr>)"
proof -
  obtain hs he where sc: "header_scan (take 1000 view) 0 = (hs, he)"
    by (cases "header_scan (take 1000 view) 0")
  let ?vl = "header_lines hs"
  let ?dp = "filter (\<lambda>part. 0 < length part) (split_ws (?vl ! 1))"
  show ?thesis
    by (cases "parseInt (?dp ! 0)"; cases "parseInt (?dp ! 1)"; cases "parseInt (?vl ! 2)")
      (simp_all add: parse_view_def header_fields_def header_text_def dimension_parts_def
        pixel_payload_def sc Let_def createDummyMap_Cons)
qed

lemma parsePgmFile_cases:
  "parsePgmFile file =
     (if length file < 20 then Resolved (createDummyMap [])
      else case header_fields file of
        None \<Rightarrow> Resolved (createDummyMap [])
      | Some (w, h, maxval) \<Rightarrow>
          if w * h < 0 \<or> 4294967295 < w * h then Resolved (createDummyMap [])
          else Resolved \<lparr> width = w, height = h, resolution = 0.05, origin = (0, 0, 0),
                    data = fill_pixels (pixel_payload file maxval) (nat (w * h)) \<rparr>)"
  by (auto simp: parsePgmFile_def parse_view_fields createDummyMap_Cons
      split: option.splits)

lemma parseInt_examples:
  "parseInt ''0'' = Some 0" "parseInt ''4'' = Some 4" "parseInt ''5'' = Some 5"
  "parseInt ''255'' = Some 255" "parseInt ''65536'' = Some 65536"
  by (simp_all add: parseInt_def is_space_def startsWith_def digit_of_def digits_value_def)

text \<open>
  Claim C1, as the code has it. \<^verbatim>\<open>parsePgmFile\<close> resolves for every byte sequence and
  never rejects or throws. It resolves with the placeholder (100 by 100 cells, all
  \<open>-1\<close>) when the file is empty or shorter than 20 bytes, when the header has fewer than
  three lines that are neither blank nor comments, when the first of them is not
  \<^verbatim>\<open>P5\<close>, when the dimension line does not have exactly two parts, and when
  \<^verbatim>\<open>parseInt\<close> gives \<^verbatim>\<open>NaN\<close> for the width, the height or the maxval. (The reason
  passed to \<^verbatim>\<open>createDummyMap\<close> is only logged: the placeholder is the same for all.)
\<close>

theorem parsePgmFile_never_fails:
  "(\<exists>g. parsePgmFile file = Resolved g)
   \<and> (length file = 0 \<longrightarrow> parsePgmFile file = Resolved (createDummyMap reason))
   \<and> (length file < 20 \<longrightarrow> parsePgmFile file = Resolved (createDummyMap reason))
   \<and> (length (header_lines (header_text file)) < 3
        \<longrightarrow> parsePgmFile file = Resolved (createDummyMap reason))
   \<and> (3 \<le> length (header_lines (header_text file)) \<and> header_lines (header_text file) ! 0 \<noteq> ''P5''
        \<longrightarrow> parsePgmFile file = Resolved (createDummyMap reason))
   \<and> (3 \<le> length (header_lines (header_text file))
        \<and> length (dimension_parts (header_lines (header_text file) ! 1)) \<noteq> 2
        \<longrightarrow> parsePgmFile file = Resolved (createDummyMap reason))
   \<and> (3 \<le> length (header_lines (header_text file))
        \<and> length (dimension_parts (header_lines (header_text file) ! 1)) = 2
        \<and> (parseInt (dimension_parts (header_lines (header_text file) ! 1) ! 0) = None
          \<or> parseInt (dimension_parts (header_lines (header_text file) ! 1) ! 1) = None
          \<or> parseInt (header_lines (header_text file) ! 2) = None)
        \<longrightarrow> parsePgmFile file = Resolved (createDummyMap reason))"
proof -
  have d: "header_fields file = None \<or> length file < 20
     \<Longrightarrow> parsePgmFile file = Resolved (createDummyMap reason)"
    by (auto simp: parsePgmFile_cases createDummyMap_reason [of reason "[]"])
  have e: "\<exists>g. parsePgmFile file = Resolved g"
    by (auto simp: parsePgmFile_cases split: option.splits)
  have n3: "length (header_lines (header_text file)) < 3 \<Longrightarrow> header_fields file = None"
    by (simp add: header_fields_def Let_def)
  have n4: "header_lines (header_text file) ! 0 \<noteq> ''P5'' \<Longrightarrow> header_fields file = None"
    by (simp add: header_fields_def Let_def)
  have n5: "length (dimension_parts (header_lines (header_text file) ! 1)) \<noteq> 2
      \<Longrightarrow> header_fields file = None"
    by (simp add: header_fields_def Let_def)
  have n6: "parseInt (dimension_parts (header_lines (header_text file) ! 1) ! 0) = None
          \<or> parseInt (dimension_parts (header_lines (header_text file) ! 1) ! 1) = None
          \<or> parseInt (header_lines (header_text file) ! 2) = None
      \<Longrightarrow> header_fields file = None"
    by (auto simp: header_fields_def Let_def split: option.splits)
  from d e n3 n4 n5 n6 show ?thesis by auto
qed

text \<open>
  C1 on a file whose marker is \<^verbatim>\<open>XX\<close> and on a well-formed file of 12 bytes: both give
  the placeholder.
\<close>

theorem parsePgmFile_never_fails_witness:
  "header_lines (header_text wrong_marker_file) ! 0 = ''XX''
   \<and> 3 \<le> length (header_lines (header_text wrong_marker_file))
   \<and> parsePgmFile wrong_marker_file = Resolved (createDummyMap ''Unsupported format: XX'')
   \<and> length short_file < 20
   \<and> parsePgmFile short_file = Resolved (createDummyMap ''File too small'')"
proof -
  have h: "header_lines (header_text wrong_marker_file) = [''XX'', ''2 3'', ''255'', [CHR 0x07]]"
    by code_simp
  have l: "length short_file < 20" by (simp add: short_file_def)
  from parsePgmFile_never_fails [of wrong_marker_file "''Unsupported format: XX''"]
    parsePgmFile_never_fails [of short_file "''File too small''"] h l
  show ?thesis by simp
qed

text \<open>
  C1 as stated fails: a width of \<^verbatim>\<open>0\<close> is not a positive integer, yet \<^verbatim>\<open>parseInt\<close>
  reads it, no check rejects it, and the decoder resolves with a grid of width 0,
  height 5 and no cells instead of the placeholder.
\<close>

theorem zero_width_counterexample:
  "header_fields zero_width_file = Some (0, 5, 255)
   \<and> parsePgmFile zero_width_file
       = Resolved \<lparr> width = 0, height = 5, resolution = 0.05, origin = (0, 0, 0), data = [] \<rparr>
   \<and> parsePgmFile zero_width_file \<noteq> Resolved (createDummyMap ''Invalid header values'')"
proof -
  have hl: "header_lines (header_text zero_width_file) = [''P5'', ''0 5'', ''255'', [CHR 0x00]]"
    by code_simp
  have dp: "dimension_parts ''0 5'' = [''0'', ''5'']" by code_simp
  have f: "header_fields zero_width_file = Some (0, 5, 255)"
    by (simp add: header_fields_def hl dp parseInt_examples)
  have l: "\<not> length zero_width_file < 20" by (simp add: zero_width_file_def)
  have p: "parsePgmFile zero_width_file
       = Resolved \<lparr> width = 0, height = 5, resolution = 0.05, origin = (0, 0, 0), data = [] \<rparr>"
    by (simp add: parsePgmFile_cases f l fill_pixels_eq)
  have "width \<lparr> width = 0, height = 5, resolution = 0.05, origin = (0, 0, 0), data = [] \<rparr>
      \<noteq> width (createDummyMap ''Invalid header values'')"
    by (simp add: createDummyMap_def)
  then have "\<lparr> width = 0, height = 5, resolution = 0.05, origin = (0, 0, 0), data = [] \<rparr>
      \<noteq> createDummyMap ''Invalid header values''"
    by (rule contrapos_nn) (rule arg_cong)
  with f p show ?thesis by simp
qed




subsection \<open>Decoding an encoded grid\<close>

text \<open>Decimal digits: printing a number and reading it back.\<close>

lemma is_digit_iff: "is_digit c \<longleftrightarrow> 48 \<le> (of_char c :: nat) \<and> (of_char c :: nat) \<le> 57"
  by (auto simp: is_digit_def digit_of_def Let_def split: if_splits)

lemma digit_plain:
  assumes "is_digit c"
  shows "\<not> is_space c" and "\<not> is_binary c" and "c \<noteq> LF" and "c \<noteq> CR" and "c \<noteq> CHR ''#''"
    and "c \<noteq> CHR ''-''" and "c \<noteq> CHR ''+''" and "c \<noteq> CHR ''x''" and "c \<noteq> CHR ''X''"
  using assms by (auto simp: is_digit_iff is_space_def is_binary_def)

lemma is_digit_char_of: "d < 10 \<Longrightarrow> is_digit (char_of (48 + d :: nat))"
  by (simp add: is_digit_iff)

lemma digit_of_char_of: "d < 10 \<Longrightarrow> digit_of 10 (char_of (48 + d :: nat)) = Some d"
  by (simp add: digit_of_def Let_def)

lemma show_nat_nonempty [simp]: "show_nat n \<noteq> []"
  by (subst show_nat.simps) simp

lemma show_nat_digits: "c \<in> set (show_nat n) \<Longrightarrow> is_digit c"
proof (induction n arbitrary: c rule: show_nat.induct)
  case (1 n)
  show ?case
  proof (cases "n < 10")
    case True
    with "1.prems" show ?thesis
      by (subst (asm) show_nat.simps) (simp add: is_digit_char_of)
  next
    case False
    with "1.prems" "1.IH" show ?thesis
      by (subst (asm) show_nat.simps) (auto simp: is_digit_char_of)
  qed
qed

lemma digits_value_snoc:
  "digits_value R (Z @ [c]) = digits_value R Z * R + the (digit_of R c)"
  by (simp add: digits_value_def)

lemma digits_value_show_nat: "digits_value 10 (show_nat n) = n"
proof (induction n rule: show_nat.induct)
  case (1 n)
  show ?case
  proof (cases "n < 10")
    case True
    then show ?thesis
      by (subst show_nat.simps) (simp add: digits_value_def digit_of_char_of)
  next
    case False
    with "1.IH" show ?thesis
      by (subst show_nat.simps) (simp add: digits_value_snoc digit_of_char_of)
  qed
qed

lemma length_show_nat: "n < 10 ^ k \<Longrightarrow> 0 < k \<Longrightarrow> length (show_nat n) \<le> k"
proof (induction n arbitrary: k rule: show_nat.induct)
  case (1 n)
  show ?case
  proof (cases "n < 10")
    case True
    with "1.prems" show ?thesis by (subst show_nat.simps) simp
  next
    case False
    with "1.prems" have "k \<noteq> 0" "k \<noteq> 1" by auto
    then obtain j where k: "k = Suc j" "0 < j"
      by (cases k) auto
    with "1.prems" have "n div 10 < 10 ^ j"
      by (simp add: less_mult_imp_div_less mult.commute)
    from "1.IH" [OF False this k(2)] False k show ?thesis
      by (subst show_nat.simps) simp
  qed
qed

lemma parseInt_digits:
  assumes "Z \<noteq> []" and "\<forall>c \<in> set Z. is_digit c"
  shows "parseInt Z = Some (int (digits_value 10 Z))"
proof -
  from assms obtain c cs where Z: "Z = c # cs" by (cases Z) auto
  with assms have c: "is_digit c" by simp
  have x: "cs \<noteq> [] \<Longrightarrow> hd cs \<noteq> CHR ''x'' \<and> hd cs \<noteq> CHR ''X''"
    using assms(2) Z digit_plain(8,9) [of "hd cs"] by (cases cs) auto
  have hex: "\<not> startsWith Z ''0x''" "\<not> startsWith Z ''0X''"
    using x Z by (cases cs; simp add: startsWith_def)+
  have tw: "takeWhile (\<lambda>c. digit_of 10 c \<noteq> None) Z = Z"
    "takeWhile (\<lambda>c. \<exists>y. digit_of 10 c = Some y) Z = Z"
    using assms(2) by (auto simp: is_digit_def)
  have s0: "dropWhile is_space Z = Z"
    using digit_plain(1) [OF c] by (simp add: Z)
  have sign: "\<not> startsWith Z ''-''" "\<not> startsWith Z ''+''"
    using digit_plain(6,7) [OF c] by (simp_all add: startsWith_def Z)
  show ?thesis
    unfolding parseInt_def Let_def s0 using assms(1) by (simp add: sign hex tw)
qed

lemma parseInt_toString:
  assumes "0 \<le> n"
  shows "parseInt (toString n) = Some n"
  using assms parseInt_digits [of "show_nat (nat n)"] show_nat_digits [of _ "nat n"]
  by (simp add: toString_def digits_value_show_nat)

text \<open>The header scan, the lines and the parts of a line, on text without surprises.\<close>

lemma header_scan_append:
  assumes "\<forall>c \<in> set xs. \<not> is_binary c"
  shows "fst (header_scan (xs @ ys) i) = xs @ fst (header_scan ys (i + length xs))"
  using assms by (induction xs arbitrary: i) (simp_all add: case_prod_beta)

lemma split_lines_line:
  assumes "LF \<notin> set l" and "CR \<notin> set l"
  shows "split_lines (l @ LF # x) = l # split_lines x"
  using assms
proof (induction l)
  case Nil
  then show ?case by (cases x) auto
next
  case (Cons c l)
  then obtain d cs where r: "l @ LF # x = d # cs" by (cases "l @ LF # x") auto
  from Cons have IH: "split_lines (d # cs) = l # split_lines x" by (simp add: r)
  from Cons.prems have c: "c \<noteq> LF" "c \<noteq> CR" by auto
  have "split_lines (c # d # cs) = (c # l) # split_lines x"
    using c IH by simp
  with r show ?case by simp
qed

lemma trim_clean:
  assumes "l \<noteq> []" and "\<not> is_space (hd l)" and "\<not> is_space (last l)"
  shows "trim l = l"
proof -
  from assms have a: "dropWhile is_space l = l" by (cases l) auto
  from assms have "dropWhile is_space (rev l) = rev l"
    by (cases "rev l") (auto simp: hd_rev)
  with a show ?thesis by (simp add: trim_def)
qed

lemma header_lines_line:
  assumes "LF \<notin> set l" and "CR \<notin> set l" and "trim l = l" and "l \<noteq> []"
    and "hd l \<noteq> CHR ''#''"
  shows "header_lines (l @ LF # x) = l # header_lines x"
proof -
  have s: "\<not> startsWith l ''#''"
    using assms(4,5) by (cases l) (simp_all add: startsWith_def)
  show ?thesis
    unfolding header_lines_def split_lines_line [OF assms(1,2)]
    using assms(3,4) s by simp
qed

lemma split_ws_plain:
  assumes "\<forall>c \<in> set b. \<not> is_space c"
  shows "split_ws b = [b]"
  using assms by (induction b) auto

lemma split_ws_two:
  assumes "\<forall>c \<in> set a. \<not> is_space c" and "\<forall>c \<in> set b. \<not> is_space c"
  shows "split_ws (a @ CHR '' '' # b) = [a, b]"
  using assms
proof (induction a)
  case Nil
  then have "dropWhile is_space b = b" by (cases b) auto
  with Nil show ?case by (simp add: is_space_def split_ws_plain)
next
  case (Cons c a)
  then show ?case by simp
qed

text \<open>The search for the end of the header, a stretch of the file at a time.\<close>

lemma startsWith_self [simp]: "startsWith (nd @ xs) nd"
  by (simp add: startsWith_def)

lemma includes_str_suffix: "includes_str (xs @ nd) nd"
proof (induction xs)
  case Nil
  then show ?case using startsWith_self [of nd "[]"] by (cases nd) auto
next
  case (Cons x xs)
  then show ?case by simp
qed

lemma slice_before:
  "slice (pre @ rest) (length pre - 10) (length pre) = drop (length pre - 10) pre"
  by (simp add: slice_def)

lemma find_header_end_skip:
  assumes "LF \<notin> set xs"
  shows "find_header_end (pre @ xs @ rest) nd (length pre)
     = find_header_end (pre @ xs @ rest) nd (length pre + length xs)"
  using assms
proof (induction xs arbitrary: pre)
  case Nil
  then show ?case by simp
next
  case (Cons x xs)
  from Cons.prems have x: "x \<noteq> LF" by auto
  have "find_header_end (pre @ (x # xs) @ rest) nd (length pre)
      = find_header_end (pre @ (x # xs) @ rest) nd (length pre + 1)"
    using x by (subst find_header_end.simps) (simp add: nth_append)
  also have "\<dots> = find_header_end ((pre @ [x]) @ xs @ rest) nd (length (pre @ [x]))"
    by simp
  also have "\<dots> = find_header_end ((pre @ [x]) @ xs @ rest) nd (length (pre @ [x]) + length xs)"
    using Cons.prems by (intro Cons.IH) simp
  finally show ?case by simp
qed

lemma find_header_end_miss:
  assumes "\<not> includes_str (drop (length pre - 10) pre) nd"
  shows "find_header_end (pre @ LF # rest) nd (length pre)
     = find_header_end (pre @ LF # rest) nd (Suc (length pre))"
  using assms by (subst find_header_end.simps) (simp add: slice_before)

lemma find_header_end_hit:
  assumes "includes_str (drop (length pre - 10) pre) nd"
  shows "find_header_end (pre @ LF # rest) nd (length pre) = Suc (length pre)"
  using assms by (subst find_header_end.simps) (simp add: slice_before)

lemma find_P5_start: "find_P5 (CHR ''P'' # CHR ''5'' # rest) 0 = 0"
  by (subst find_P5.simps) simp

lemma of_char_char_of_cell:
  assumes "0 \<le> v" and "v \<le> 255"
  shows "(of_char (char_of (nat v)) :: int) = v"
proof -
  have "(of_char (char_of (nat v)) :: int) = int (of_char (char_of (nat v)))"
    by (simp only: of_nat_of_char)
  also have "\<dots> = int (nat v mod 256)" by simp
  also have "\<dots> = v" using assms by simp
  finally show ?thesis .
qed

lemma digits_plain:
  assumes "\<forall>c \<in> set Z. is_digit c"
  shows "LF \<notin> set Z" and "CR \<notin> set Z" and "\<forall>c \<in> set Z. \<not> is_binary c"
    and "\<forall>c \<in> set Z. \<not> is_space c"
  using assms digit_plain(1-4) by blast+

lemma includes_last10:
  assumes "length nd \<le> 10"
  shows "includes_str (drop (length (A @ nd) - 10) (A @ nd)) nd"
proof -
  from assms have "drop (length (A @ nd) - 10) (A @ nd) = drop (length (A @ nd) - 10) A @ nd"
    by simp
  then show ?thesis by (simp only: includes_str_suffix)
qed

lemma toString_255: "toString 255 = ''255''"
  by code_simp

lemma toString_digits:
  assumes "0 < n"
  shows "toString n \<noteq> []" and "\<forall>c \<in> set (toString n). is_digit c"
  using assms show_nat_digits [of _ "nat n"] by (auto simp: toString_def)

lemma length_toString:
  assumes "0 < n" and "n \<le> 4294967295"
  shows "length (toString n) \<le> 10"
proof -
  from assms have "nat n < 10 ^ 10" by simp
  from length_show_nat [OF this] assms show ?thesis by (simp add: toString_def)
qed

text \<open>
  Claim C7, as the code has it. Let a grid be well formed (positive width and height,
  \<open>width * height\<close> cells, each from 0 to 255) and let its encoding be the marker line,
  the \<^verbatim>\<open>WIDTH HEIGHT\<close> line, the line \<^verbatim>\<open>255\<close> and one byte per cell. If the encoding
  has at least 20 bytes, \<open>width * height\<close> is at most \<open>2^32 - 1\<close>, and the ten bytes
  before the end of the \<^verbatim>\<open>WIDTH HEIGHT\<close> line do not contain the digits \<^verbatim>\<open>255\<close>,
  then decoding the encoding gives the grid back.
\<close>

theorem decode_encode_roundtrip:
  assumes wf: "well_formed g"
    and len: "20 \<le> length (encode_pgm g)"
    and size: "width g * height g \<le> 4294967295"
    and clear: "\<not> includes_str
        (slice (encode_pgm g) (dimension_line_end g - 10) (dimension_line_end g)) (toString 255)"
  shows "parsePgmFile (encode_pgm g) = Resolved g"
proof -
  define W where "W = toString (width g)"
  define H where "H = toString (height g)"
  define dims where "dims = W @ CHR '' '' # H"
  define payload where "payload = map (\<lambda>v. char_of (nat v)) (data g)"
  define header where "header = ''P5'' @ LF # dims @ LF # ''255'' @ [LF]"
  from wf have pos: "0 < width g" "0 < height g"
    and cells: "int (length (data g)) = width g * height g"
    and range: "list_all (\<lambda>v. 0 \<le> v \<and> v \<le> 255) (data g)"
    and meta: "resolution g = 0.05" "origin g = (0, 0, 0)"
    by (simp_all add: well_formed_def)
  from pos size have bounds: "width g \<le> 4294967295" "height g \<le> 4294967295"
  proof -
    from pos have "width g * 1 \<le> width g * height g" by (intro mult_left_mono) auto
    with size show "width g \<le> 4294967295" by simp
    from pos have "1 * height g \<le> width g * height g" by (intro mult_right_mono) auto
    with size show "height g \<le> 4294967295" by simp
  qed
  have Wd: "W \<noteq> []" "\<forall>c \<in> set W. is_digit c" and Hd: "H \<noteq> []" "\<forall>c \<in> set H. is_digit c"
    using toString_digits pos by (simp_all add: W_def H_def)
  have lens: "length W \<le> 10" "length H \<le> 10"
    using length_toString pos bounds by (simp_all add: W_def H_def)
  have e: "encode_pgm g = header @ payload"
    by (simp add: encode_pgm_def header_def dims_def W_def H_def payload_def)
  have sp: "\<not> is_binary CHR '' ''" by (simp add: is_binary_def)
  have dims_plain: "LF \<notin> set dims" "CR \<notin> set dims" "\<forall>c \<in> set dims. \<not> is_binary c"
    using digits_plain [OF Wd(2)] digits_plain [OF Hd(2)] sp by (auto simp: dims_def)
  have dims_ne: "dims \<noteq> []" and dims_hd: "hd dims = hd W" and dims_last: "last dims = last H"
    using Wd Hd by (simp_all add: dims_def)
  have dims_trim: "trim dims = dims"
  proof (rule trim_clean [OF dims_ne])
    from Wd have "is_digit (hd W)" by (cases W) auto
    then show "\<not> is_space (hd dims)" using digit_plain(1) by (simp add: dims_hd)
    from Hd have "is_digit (last H)" by (cases H rule: rev_cases) auto
    then show "\<not> is_space (last dims)" using digit_plain(1) by (simp add: dims_last)
  qed
  have dims_hash: "hd dims \<noteq> CHR ''#''"
  proof -
    from Wd have "is_digit (hd W)" by (cases W) auto
    then show ?thesis using digit_plain(5) by (simp add: dims_hd)
  qed
  \<comment> \<open>the header text and its lines\<close>
  have header_len: "length header \<le> 1000"
    using lens by (simp add: header_def dims_def)
  have header_plain: "\<forall>c \<in> set header. \<not> is_binary c"
    using dims_plain(3) by (auto simp: header_def is_binary_def)
  obtain r where ht: "header_text (encode_pgm g) = header @ r"
    using header_scan_append [OF header_plain, of "take (1000 - length header) payload" 0] header_len
    by (simp add: header_text_def e)
  have p5_trim: "trim ''P5'' = ''P5''" and m_trim: "trim ''255'' = ''255''"
    by (simp_all add: trim_def is_space_def)
  have lines: "header_lines (header_text (encode_pgm g)) = ''P5'' # dims # ''255'' # header_lines r"
  proof -
    have "header_lines (''P5'' @ LF # (dims @ LF # ''255'' @ LF # r))
        = ''P5'' # header_lines (dims @ LF # ''255'' @ LF # r)"
      by (rule header_lines_line) (simp_all add: p5_trim)
    also have "header_lines (dims @ LF # ''255'' @ LF # r) = dims # header_lines (''255'' @ LF # r)"
      by (rule header_lines_line) (simp_all add: dims_plain dims_trim dims_ne dims_hash)
    also have "header_lines (''255'' @ LF # r) = ''255'' # header_lines r"
      by (rule header_lines_line) (simp_all add: m_trim)
    finally show ?thesis by (simp add: ht header_def)
  qed
  have parts: "dimension_parts dims = [W, H]"
    using Wd(1) Hd(1) split_ws_two [OF digits_plain(4) [OF Wd(2)] digits_plain(4) [OF Hd(2)]]
    by (simp add: dimension_parts_def dims_def)
  have ints: "parseInt W = Some (width g)" "parseInt H = Some (height g)"
    "parseInt ''255'' = Some 255"
    using pos parseInt_toString [of "width g"] parseInt_toString [of "height g"]
      parseInt_toString [of 255]
    by (simp_all add: W_def H_def toString_255)
  have fields: "header_fields (encode_pgm g) = Some (width g, height g, 255)"
    by (simp add: header_fields_def lines parts ints)
  \<comment> \<open>the end of the header\<close>
  let ?e = "encode_pgm g"
  have e0: "?e = [] @ ''P5'' @ (LF # dims @ LF # ''255'' @ LF # payload)"
    and e1: "?e = ''P5'' @ LF # (dims @ LF # ''255'' @ LF # payload)"
    and e2: "?e = (''P5'' @ [LF]) @ dims @ (LF # ''255'' @ LF # payload)"
    and e3: "?e = (''P5'' @ LF # dims) @ LF # (''255'' @ LF # payload)"
    and e4: "?e = (''P5'' @ LF # dims @ [LF]) @ ''255'' @ (LF # payload)"
    and e5: "?e = ((''P5'' @ LF # dims @ [LF]) @ ''255'') @ LF # payload"
    by (simp_all add: e header_def)
  have dle: "dimension_line_end g = length (''P5'' @ LF # dims)"
    by (simp add: dimension_line_end_def dims_def W_def H_def)
  have miss: "\<not> includes_str (drop (length (''P5'' @ LF # dims) - 10) (''P5'' @ LF # dims)) ''255''"
  proof -
    have "slice ?e (dimension_line_end g - 10) (dimension_line_end g)
        = drop (length (''P5'' @ LF # dims) - 10) (''P5'' @ LF # dims)"
      unfolding dle by (subst e3) (rule slice_before)
    with clear show ?thesis by (simp add: toString_255)
  qed
  have hit: "includes_str (drop (length ((''P5'' @ LF # dims @ [LF]) @ ''255'') - 10)
      ((''P5'' @ LF # dims @ [LF]) @ ''255'')) ''255''"
    by (rule includes_last10) simp
  have f0: "find_header_end ?e ''255'' (length ([] :: string))
      = find_header_end ?e ''255'' (length ([] :: string) + length ''P5'')"
    by (subst (1 2) e0) (rule find_header_end_skip, simp)
  have f1: "find_header_end ?e ''255'' (length ''P5'')
      = find_header_end ?e ''255'' (Suc (length ''P5''))"
    by (subst (1 2) e1) (rule find_header_end_miss, simp add: startsWith_def)
  have f2: "find_header_end ?e ''255'' (length (''P5'' @ [LF]))
      = find_header_end ?e ''255'' (length (''P5'' @ [LF]) + length dims)"
    by (subst (1 2) e2) (rule find_header_end_skip, rule dims_plain)
  have f3: "find_header_end ?e ''255'' (length (''P5'' @ LF # dims))
      = find_header_end ?e ''255'' (Suc (length (''P5'' @ LF # dims)))"
    by (subst (1 2) e3) (rule find_header_end_miss, rule miss)
  have f4: "find_header_end ?e ''255'' (length (''P5'' @ LF # dims @ [LF]))
      = find_header_end ?e ''255'' (length (''P5'' @ LF # dims @ [LF]) + length ''255'')"
    by (subst (1 2) e4) (rule find_header_end_skip, simp)
  have f5: "find_header_end ?e ''255'' (length ((''P5'' @ LF # dims @ [LF]) @ ''255''))
      = Suc (length ((''P5'' @ LF # dims @ [LF]) @ ''255''))"
    by (subst e5) (rule find_header_end_hit, rule hit)
  from f0 f1 f2 f3 f4 f5 have found: "find_header_end ?e ''255'' 0 = length header"
    by (simp add: header_def)
  have p5: "find_P5 ?e 0 = 0"
    by (simp add: e header_def find_P5_start)
  have pl: "pixel_payload ?e 255 = payload"
    by (simp add: pixel_payload_def toString_255 p5 found Let_def) (simp add: e header_def)
  \<comment> \<open>the cells\<close>
  have n: "nat (width g * height g) = length payload"
    using cells by (simp add: payload_def)
  have decoded: "map of_char payload = data g"
    using range by (simp add: payload_def list_all_iff of_char_char_of_cell map_idI o_def)
  have "parsePgmFile ?e =
      Resolved \<lparr> width = width g, height = height g, resolution = 0.05, origin = (0, 0, 0),
        data = data g \<rparr>"
    using len pos size
    by (simp add: parsePgmFile_cases fields pl fill_pixels_eq n decoded mult_nonneg_nonneg less_le_not_le)
  with meta show ?thesis by simp
qed

lemma encode_small_grid:
  "encode_pgm small_grid =
     ''P5'' @ [LF] @ ''4 3'' @ [LF] @ ''255'' @ [LF] @
     [CHR 0x00, CHR 0x0A, CHR 0x0D, CHR 0x23, CHR 0x32, CHR 0x35, CHR 0x50, CHR 0x64,
      CHR 0x80, CHR 0xCD, CHR 0xFE, CHR 0xFF]"
  by code_simp

text \<open>C7 on the grid of 4 by 3 cells, whose encoding has 23 bytes.\<close>

theorem decode_encode_roundtrip_witness:
  "well_formed small_grid \<and> 20 \<le> length (encode_pgm small_grid)
   \<and> width small_grid * height small_grid \<le> 4294967295
   \<and> \<not> includes_str (slice (encode_pgm small_grid) (dimension_line_end small_grid - 10)
          (dimension_line_end small_grid)) (toString 255)
   \<and> parsePgmFile (encode_pgm small_grid) = Resolved small_grid"
proof -
  have wf: "well_formed small_grid" by (simp add: well_formed_def small_grid_def)
  have len: "20 \<le> length (encode_pgm small_grid)" by (simp add: encode_small_grid)
  have size: "width small_grid * height small_grid \<le> 4294967295" by (simp add: small_grid_def)
  have clear: "\<not> includes_str (slice (encode_pgm small_grid) (dimension_line_end small_grid - 10)
          (dimension_line_end small_grid)) (toString 255)"
    by code_simp
  from decode_encode_roundtrip [OF wf len size clear] wf len size clear show ?thesis by simp
qed

text \<open>
  C7 as stated fails: the grid of one cell is well formed, its encoding has 12 bytes,
  and the decoder answers every file shorter than 20 bytes with the placeholder.
\<close>

theorem small_file_roundtrip_counterexample:
  "well_formed tiny_grid
   \<and> length (encode_pgm tiny_grid) = 12
   \<and> parsePgmFile (encode_pgm tiny_grid) = Resolved (createDummyMap ''File too small'')
   \<and> parsePgmFile (encode_pgm tiny_grid) \<noteq> Resolved tiny_grid"
proof -
  have wf: "well_formed tiny_grid" by (simp add: well_formed_def tiny_grid_def)
  have len: "length (encode_pgm tiny_grid) = 12" by code_simp
  then have p: "parsePgmFile (encode_pgm tiny_grid) = Resolved (createDummyMap ''File too small'')"
    by (simp add: parsePgmFile_def)
  have "width (createDummyMap ''File too small'') \<noteq> width tiny_grid"
    by (simp add: createDummyMap_def tiny_grid_def)
  then have "createDummyMap ''File too small'' \<noteq> tiny_grid"
    by (rule contrapos_nn) (rule arg_cong)
  with wf len p show ?thesis by simp
qed

text \<open>
  Why the digits of the maxval must not stand in the dimension line: for a grid 255
  cells wide and 1 high the search for the end of the header stops at the end of the
  dimension line, and the decoder takes the maxval line for the first four cells.
\<close>

lemma header_end_found_early:
  assumes "width g = 255" and "height g = 1"
  shows "pixel_payload (encode_pgm g) 255 = ''255'' @ LF # map (\<lambda>v. char_of (nat v)) (data g)"
proof -
  define payload where "payload = map (\<lambda>v. char_of (nat v)) (data g)"
  let ?e = "encode_pgm g"
  have one: "toString 1 = ''1''" by code_simp
  have e: "?e = ''P5'' @ LF # ''255 1'' @ LF # ''255'' @ LF # payload"
    by (simp add: encode_pgm_def assms toString_255 one payload_def)
  have e0: "?e = [] @ ''P5'' @ (LF # ''255 1'' @ LF # ''255'' @ LF # payload)"
    and e1: "?e = ''P5'' @ LF # (''255 1'' @ LF # ''255'' @ LF # payload)"
    and e2: "?e = (''P5'' @ [LF]) @ ''255 1'' @ (LF # ''255'' @ LF # payload)"
    and e3: "?e = (''P5'' @ LF # ''255 1'') @ LF # (''255'' @ LF # payload)"
    by (simp_all add: e)
  have f0: "find_header_end ?e ''255'' (length ([] :: string))
      = find_header_end ?e ''255'' (length ([] :: string) + length ''P5'')"
    by (subst (1 2) e0) (rule find_header_end_skip, simp)
  have f1: "find_header_end ?e ''255'' (length ''P5'')
      = find_header_end ?e ''255'' (Suc (length ''P5''))"
    by (subst (1 2) e1) (rule find_header_end_miss, simp add: startsWith_def)
  have f2: "find_header_end ?e ''255'' (length (''P5'' @ [LF]))
      = find_header_end ?e ''255'' (length (''P5'' @ [LF]) + length ''255 1'')"
    by (subst (1 2) e2) (rule find_header_end_skip, simp)
  have f3: "find_header_end ?e ''255'' (length (''P5'' @ LF # ''255 1''))
      = Suc (length (''P5'' @ LF # ''255 1''))"
    by (subst e3) (rule find_header_end_hit, simp add: startsWith_def)
  from f0 f1 f2 f3 have found: "find_header_end ?e ''255'' 0 = 9"
    by simp
  have p5: "find_P5 ?e 0 = 0"
    by (simp add: e find_P5_start)
  show ?thesis
    by (simp add: pixel_payload_def toString_255 p5 found Let_def) (simp add: e payload_def)
qed

section \<open>Properties of the metadata decoder\<close>

lemmas parse_defs = parseFloat_def parseInt_def is_space_def startsWith_def is_digit_def
  digit_of_def digits_value_def trim_def

text \<open>One round of the loop, by the key of the line.\<close>

lemma yaml_line_cases:
  "yaml_line md l =
     (case line_key l of
        None \<Rightarrow> md
      | Some k \<Rightarrow>
          if k = ''resolution'' then
            (if parseFloat (line_value l) \<noteq> NaN
             then md\<lparr> meta_resolution := Some (parseFloat (line_value l)) \<rparr> else md)
          else if k = ''origin'' then
            (if 2 \<le> length (origin_coords (line_value l))
                \<and> NaN \<notin> set (origin_coords (line_value l))
             then md\<lparr> meta_origin :=
                    Some (origin_coords (line_value l) ! 0, origin_coords (line_value l) ! 1,
                          if 2 < length (origin_coords (line_value l))
                             \<and> number_truthy (origin_coords (line_value l) ! 2)
                          then origin_coords (line_value l) ! 2 else Finite 0) \<rparr>
             else md)
          else md)"
  by (auto simp: yaml_line_def line_key_def line_value_def Let_def list_all_iff)

lemma until_bracket_append:
  assumes "CHR '']'' \<notin> set inner" and "LF \<notin> set inner" and "CR \<notin> set inner"
  shows "until_bracket (inner @ CHR '']'' # post) = Some inner"
  using assms by (induction inner) auto

lemma origin_coords_bracketed:
  assumes "CHR '']'' \<notin> set inner" and "LF \<notin> set inner" and "CR \<notin> set inner"
  shows "origin_coords (CHR ''['' # inner @ CHR '']'' # post)
     = map (\<lambda>s. parseFloat (trim s)) (split_on CHR '','' inner)"
  using until_bracket_append [OF assms] by (simp add: origin_coords_def)

lemma origin_coords_bare:
  assumes "CHR ''['' \<notin> set v \<or> CHR '']'' \<notin> set v" and "CHR '','' \<in> set v"
  shows "origin_coords v = map (\<lambda>s. parseFloat (trim s)) (split_on CHR '','' v)"
  using assms by (auto simp: origin_coords_def)

text \<open>A field that is set at the end was set by one of the lines.\<close>

lemma foldl_yaml_line_origin:
  assumes "meta_origin (foldl yaml_line md ls) = Some org"
  shows "meta_origin md = Some org
    \<or> (\<exists>l \<in> set ls. line_key l = Some ''origin''
          \<and> 2 \<le> length (origin_coords (line_value l))
          \<and> NaN \<notin> set (origin_coords (line_value l))
          \<and> org = (origin_coords (line_value l) ! 0, origin_coords (line_value l) ! 1,
                 if 2 < length (origin_coords (line_value l))
                    \<and> number_truthy (origin_coords (line_value l) ! 2)
                 then origin_coords (line_value l) ! 2 else Finite 0))"
  using assms
proof (induction ls arbitrary: md)
  case Nil
  then show ?case by simp
next
  case (Cons l ls)
  from Cons.prems have "meta_origin (foldl yaml_line (yaml_line md l) ls) = Some org" by simp
  from Cons.IH [OF this] show ?case
  proof
    assume a: "meta_origin (yaml_line md l) = Some org"
    show ?thesis
    proof (cases "meta_origin md = Some org")
      case True
      then show ?thesis by simp
    next
      case False
      with a show ?thesis
        by (auto simp: yaml_line_cases split: option.splits if_splits)
    qed
  next
    assume "\<exists>l \<in> set ls. line_key l = Some ''origin''
          \<and> 2 \<le> length (origin_coords (line_value l))
          \<and> NaN \<notin> set (origin_coords (line_value l))
          \<and> org = (origin_coords (line_value l) ! 0, origin_coords (line_value l) ! 1,
                 if 2 < length (origin_coords (line_value l))
                    \<and> number_truthy (origin_coords (line_value l) ! 2)
                 then origin_coords (line_value l) ! 2 else Finite 0)"
    then show ?thesis by auto
  qed
qed

lemma foldl_yaml_line_resolution:
  assumes "meta_resolution (foldl yaml_line md ls) = Some r"
  shows "meta_resolution md = Some r
    \<or> (\<exists>l \<in> set ls. line_key l = Some ''resolution'' \<and> parseFloat (line_value l) = r \<and> r \<noteq> NaN)"
  using assms
proof (induction ls arbitrary: md)
  case Nil
  then show ?case by simp
next
  case (Cons l ls)
  from Cons.prems have "meta_resolution (foldl yaml_line (yaml_line md l) ls) = Some r" by simp
  from Cons.IH [OF this] show ?case
  proof
    assume a: "meta_resolution (yaml_line md l) = Some r"
    show ?thesis
    proof (cases "meta_resolution md = Some r")
      case True
      then show ?thesis by simp
    next
      case False
      with a show ?thesis
        by (auto simp: yaml_line_cases split: option.splits if_splits)
    qed
  next
    assume "\<exists>l \<in> set ls. line_key l = Some ''resolution'' \<and> parseFloat (line_value l) = r \<and> r \<noteq> NaN"
    then show ?thesis by auto
  qed
qed

text \<open>
  Claim C9. A line whose key is neither \<^verbatim>\<open>resolution\<close> nor \<^verbatim>\<open>origin\<close> (or that has
  no key) changes nothing. A \<^verbatim>\<open>resolution\<close> line sets the resolution to
  \<^verbatim>\<open>parseFloat\<close> of its value unless that is \<^verbatim>\<open>NaN\<close>. An \<^verbatim>\<open>origin\<close> line sets the
  origin when its value has two or more components and none of them is \<^verbatim>\<open>NaN\<close>, with
  0 for a third component that is absent, and changes nothing otherwise; the
  components are those between \<^verbatim>\<open>[\<close> and \<^verbatim>\<open>]\<close> of a bracketed value and those of
  a bare comma-separated one. For the whole file: an origin in the result comes from an
  \<^verbatim>\<open>origin\<close> line with at least two components that parse, and a resolution from a
  \<^verbatim>\<open>resolution\<close> line.
\<close>

theorem yaml_keys_resolution_and_origin:
  "(line_key l \<noteq> Some ''resolution'' \<and> line_key l \<noteq> Some ''origin'' \<longrightarrow> yaml_line md l = md)
   \<and> (line_key l = Some ''resolution'' \<longrightarrow>
        yaml_line md l =
          (if parseFloat (line_value l) \<noteq> NaN
           then md\<lparr> meta_resolution := Some (parseFloat (line_value l)) \<rparr> else md))
   \<and> (line_key l = Some ''origin'' \<longrightarrow>
        (let cs = origin_coords (line_value l) in
         yaml_line md l =
           (if 2 \<le> length cs \<and> NaN \<notin> set cs
            then md\<lparr> meta_origin :=
                   Some (cs ! 0, cs ! 1,
                         if 2 < length cs \<and> number_truthy (cs ! 2) then cs ! 2 else Finite 0) \<rparr>
            else md)
         \<and> (length cs = 2 \<and> NaN \<notin> set cs \<longrightarrow>
              meta_origin (yaml_line md l) = Some (cs ! 0, cs ! 1, Finite 0))))
   \<and> (CHR '']'' \<notin> set inner \<and> LF \<notin> set inner \<and> CR \<notin> set inner \<longrightarrow>
        origin_coords (CHR ''['' # inner @ CHR '']'' # post)
          = map (\<lambda>s. parseFloat (trim s)) (split_on CHR '','' inner))
   \<and> ((CHR ''['' \<notin> set v \<or> CHR '']'' \<notin> set v) \<and> CHR '','' \<in> set v \<longrightarrow>
        origin_coords v = map (\<lambda>s. parseFloat (trim s)) (split_on CHR '','' v))
   \<and> (parseYamlMetadata content = Resolved m \<and> meta_origin m = Some org \<longrightarrow>
        (\<exists>l \<in> set (split_lines content).
           line_key l = Some ''origin''
           \<and> 2 \<le> length (filter (\<lambda>c. c \<noteq> NaN) (origin_coords (line_value l)))
           \<and> NaN \<notin> set (origin_coords (line_value l))
           \<and> fst org = origin_coords (line_value l) ! 0
           \<and> fst (snd org) = origin_coords (line_value l) ! 1))
   \<and> (parseYamlMetadata content = Resolved m \<and> meta_resolution m = Some r \<longrightarrow>
        (\<exists>l \<in> set (split_lines content).
           line_key l = Some ''resolution'' \<and> parseFloat (line_value l) = r \<and> r \<noteq> NaN))"
proof -
  have a: "line_key l \<noteq> Some ''resolution'' \<and> line_key l \<noteq> Some ''origin'' \<longrightarrow> yaml_line md l = md"
    by (simp add: yaml_line_cases split: option.splits)
  have b: "line_key l = Some ''resolution'' \<longrightarrow>
        yaml_line md l =
          (if parseFloat (line_value l) \<noteq> NaN
           then md\<lparr> meta_resolution := Some (parseFloat (line_value l)) \<rparr> else md)"
    by (simp add: yaml_line_cases)
  have c: "line_key l = Some ''origin'' \<longrightarrow>
        (let cs = origin_coords (line_value l) in
         yaml_line md l =
           (if 2 \<le> length cs \<and> NaN \<notin> set cs
            then md\<lparr> meta_origin :=
                   Some (cs ! 0, cs ! 1,
                         if 2 < length cs \<and> number_truthy (cs ! 2) then cs ! 2 else Finite 0) \<rparr>
            else md)
         \<and> (length cs = 2 \<and> NaN \<notin> set cs \<longrightarrow>
              meta_origin (yaml_line md l) = Some (cs ! 0, cs ! 1, Finite 0)))"
    by (simp add: yaml_line_cases Let_def)
  have d: "CHR '']'' \<notin> set inner \<and> LF \<notin> set inner \<and> CR \<notin> set inner \<longrightarrow>
        origin_coords (CHR ''['' # inner @ CHR '']'' # post)
          = map (\<lambda>s. parseFloat (trim s)) (split_on CHR '','' inner)"
    using origin_coords_bracketed by blast
  have e: "(CHR ''['' \<notin> set v \<or> CHR '']'' \<notin> set v) \<and> CHR '','' \<in> set v \<longrightarrow>
        origin_coords v = map (\<lambda>s. parseFloat (trim s)) (split_on CHR '','' v)"
    using origin_coords_bare by blast
  have f: "\<exists>l \<in> set (split_lines content).
           line_key l = Some ''origin''
           \<and> 2 \<le> length (filter (\<lambda>c. c \<noteq> NaN) (origin_coords (line_value l)))
           \<and> NaN \<notin> set (origin_coords (line_value l))
           \<and> fst org = origin_coords (line_value l) ! 0
           \<and> fst (snd org) = origin_coords (line_value l) ! 1"
    if "parseYamlMetadata content = Resolved m" "meta_origin m = Some org"
  proof -
    from that have "meta_origin (foldl yaml_line \<lparr> meta_resolution = None, meta_origin = None \<rparr>
                       (split_lines content)) = Some org"
      by (auto simp: parseYamlMetadata_def split: if_splits)
    from foldl_yaml_line_origin [OF this]
    obtain l where l: "l \<in> set (split_lines content)" "line_key l = Some ''origin''"
      "2 \<le> length (origin_coords (line_value l))" "NaN \<notin> set (origin_coords (line_value l))"
      "org = (origin_coords (line_value l) ! 0, origin_coords (line_value l) ! 1,
                 if 2 < length (origin_coords (line_value l))
                    \<and> number_truthy (origin_coords (line_value l) ! 2)
                 then origin_coords (line_value l) ! 2 else Finite 0)"
      by auto
    from l(4) have "filter (\<lambda>c. c \<noteq> NaN) (origin_coords (line_value l)) = origin_coords (line_value l)"
      by (auto simp: filter_id_conv)
    with l show ?thesis by auto
  qed
  have g: "\<exists>l \<in> set (split_lines content).
           line_key l = Some ''resolution'' \<and> parseFloat (line_value l) = r \<and> r \<noteq> NaN"
    if "parseYamlMetadata content = Resolved m" "meta_resolution m = Some r"
  proof -
    from that have "meta_resolution (foldl yaml_line \<lparr> meta_resolution = None, meta_origin = None \<rparr>
                       (split_lines content)) = Some r"
      by (auto simp: parseYamlMetadata_def split: if_splits)
    from foldl_yaml_line_resolution [OF this] show ?thesis by auto
  qed
  from a b c d e f g show ?thesis by blast
qed

text \<open>
  C9 on single lines (an ignored key, a bare origin with two components, a bracketed
  origin with a component that does not parse) and on the example file.
\<close>

theorem yaml_keys_resolution_and_origin_witness:
  "line_key ''negate: 0'' = Some ''negate''
   \<and> yaml_line \<lparr> meta_resolution = None, meta_origin = None \<rparr> ''negate: 0''
       = \<lparr> meta_resolution = None, meta_origin = None \<rparr>
   \<and> line_key ''origin: -1.5, 2'' = Some ''origin''
   \<and> yaml_line \<lparr> meta_resolution = None, meta_origin = None \<rparr> ''origin: -1.5, 2''
       = \<lparr> meta_resolution = None, meta_origin = Some (Finite (- 1.5), Finite 2, Finite 0) \<rparr>
   \<and> yaml_line \<lparr> meta_resolution = None, meta_origin = None \<rparr> ''origin: [1, 2, abc]''
       = \<lparr> meta_resolution = None, meta_origin = None \<rparr>
   \<and> origin_coords ''[1, 2, 3]'' = [Finite 1, Finite 2, Finite 3]
   \<and> parseYamlMetadata yaml_example
       = Resolved \<lparr> meta_resolution = Some (Finite 0.05),
                    meta_origin = Some (Finite (- 10), Finite (- 21.2), Finite 0) \<rparr>"
proof -
  have k: "line_key ''negate: 0'' = Some ''negate''" "line_key ''origin: -1.5, 2'' = Some ''origin''"
    "line_key ''origin: [1, 2, abc]'' = Some ''origin''"
    by (simp_all add: line_key_def parse_defs)
  have v: "line_value ''origin: -1.5, 2'' = ''-1.5, 2''"
    "line_value ''origin: [1, 2, abc]'' = ''[1, 2, abc]''"
    by (simp_all add: line_value_def parse_defs)
  have c: "origin_coords ''-1.5, 2'' = [Finite (- 1.5), Finite 2]"
    "origin_coords ''[1, 2, abc]'' = [Finite 1, Finite 2, NaN]"
    by (simp_all add: origin_coords_def parse_defs)
  have s: "split_on CHR '','' ''1, 2, 3'' = [''1'', '' 2'', '' 3'']" by simp
  have p: "map (\<lambda>s. parseFloat (trim s)) [''1'', '' 2'', '' 3''] = [Finite 1, Finite 2, Finite 3]"
    by (simp add: parse_defs)
  have y: "parseYamlMetadata yaml_example
       = Resolved \<lparr> meta_resolution = Some (Finite 0.05),
                    meta_origin = Some (Finite (- 10), Finite (- 21.2), Finite 0) \<rparr>"
    by (simp add: parseYamlMetadata_def yaml_example_def yaml_line_def origin_coords_def parse_defs)
  from yaml_keys_resolution_and_origin [where l = "''negate: 0''"
      and md = "\<lparr> meta_resolution = None, meta_origin = None \<rparr>" and inner = "''1, 2, 3''" and post = "[]"]
    yaml_keys_resolution_and_origin [where l = "''origin: -1.5, 2''"
      and md = "\<lparr> meta_resolution = None, meta_origin = None \<rparr>"]
    yaml_keys_resolution_and_origin [where l = "''origin: [1, 2, abc]''"
      and md = "\<lparr> meta_resolution = None, meta_origin = None \<rparr>"]
    k v c s p y
  show ?thesis by (simp add: Let_def)
qed

section \<open>Properties of the coordinate transform\<close>



end
